theory Spec2Isabelle
  imports Complex_Main "HOL-Library.AList"
begin

section \<open>JSON values\<close>

text \<open>
  Tool parameters, tool responses and agent results are JavaScript values that travel
  as JSON. A string is a list of characters, one per UTF-16 code unit below 256;
  numbers are kept as integers. The value \<^verbatim>\<open>undefined\<close> is the \<open>None\<close> of an option
  wherever the source allows it.
\<close>

datatype json =
    JNull
  | JBool bool
  | JNum int
  | JStr string
  | JArr "json list"
  | JObj "(string \<times> json) list"

text \<open>\<^verbatim>\<open>typeof v === 'object' && v !== null\<close>: arrays and objects.\<close>

fun isObject :: "json \<Rightarrow> bool" where
  "isObject (JArr xs) = True"
| "isObject (JObj kvs) = True"
| "isObject v = False"

text \<open>A number in a template string or as a property name: its decimal digits.\<close>

definition digitChar :: "int \<Rightarrow> char" where
  "digitChar d = char_of (48 + d)"

function showDigits :: "int \<Rightarrow> string" where
  "showDigits n =
     (if n < 10 then [digitChar n] else showDigits (n div 10) @ [digitChar (n mod 10)])"
  by pat_completeness auto

termination
  by (relation "measure nat") auto

definition showNat :: "nat \<Rightarrow> string" where
  "showNat n = showDigits (int n)"

definition showInt :: "int \<Rightarrow> string" where
  "showInt i = (if i < 0 then CHR ''-'' # showDigits (- i) else showDigits i)"

text \<open>The property names a \<^verbatim>\<open>for ... in\<close> loop sees on an array: its indices in decimal.\<close>

definition indexKey :: "nat \<Rightarrow> string" where
  "indexKey i = showNat i"

text \<open>Truthiness, as \<^verbatim>\<open>if (v)\<close>, \<^verbatim>\<open>v || w\<close> and \<^verbatim>\<open>v ? a : b\<close> test it.\<close>

fun truthy :: "json \<Rightarrow> bool" where
  "truthy JNull = False"
| "truthy (JBool b) = b"
| "truthy (JNum n) = (n \<noteq> 0)"
| "truthy (JStr s) = (s \<noteq> [])"
| "truthy (JArr xs) = True"
| "truthy (JObj kvs) = True"

section \<open>SecurityGuardrails: output filtering\<close>

definition isDigit :: "char \<Rightarrow> bool" where
  "isDigit c = (48 \<le> (of_char c :: nat) \<and> (of_char c :: nat) \<le> 57)"

definition isUpper :: "char \<Rightarrow> bool" where
  "isUpper c = (65 \<le> (of_char c :: nat) \<and> (of_char c :: nat) \<le> 90)"

definition isLower :: "char \<Rightarrow> bool" where
  "isLower c = (97 \<le> (of_char c :: nat) \<and> (of_char c :: nat) \<le> 122)"

text \<open>\<^verbatim>\<open>String.prototype.toLowerCase\<close>, on the letters the key list can match.\<close>

definition lowerChar :: "char \<Rightarrow> char" where
  "lowerChar c = (if isUpper c then char_of ((of_char c :: nat) + 32) else c)"

definition toLowerCase :: "string \<Rightarrow> string" where
  "toLowerCase s = map lowerChar s"

fun startsWith :: "string \<Rightarrow> string \<Rightarrow> bool" where
  "startsWith s [] = True"
| "startsWith [] (p # ps) = False"
| "startsWith (c # cs) (p # ps) = (c = p \<and> startsWith cs ps)"

text \<open>\<^verbatim>\<open>String.prototype.includes\<close>: the substring test.\<close>

fun includesStr :: "string \<Rightarrow> string \<Rightarrow> bool" where
  "includesStr [] sub = (sub = [])"
| "includesStr (c # cs) sub = (startsWith (c # cs) sub \<or> includesStr cs sub)"

definition sensitiveKeys :: "string list" where
  "sensitiveKeys =
     [''password'', ''secret'', ''api_key'', ''apikey'', ''token'',
      ''api-key'', ''auth'', ''credential'', ''private_key'']"

definition isSensitiveKey :: "string \<Rightarrow> bool" where
  "isSensitiveKey key = list_ex (\<lambda>sk. includesStr (toLowerCase key) sk) sensitiveKeys"

definition redactSecret :: "string \<Rightarrow> string" where
  "redactSecret v =
     (if length v \<le> 8 then ''***''
      else take 4 v @ ''...'' @ drop (length v - 4) v)"

text \<open>
  \<^verbatim>\<open>str.replace(/AKIA[0-9A-Z]{16}/g, 'AKIA...REDACTED')\<close>: the scan goes left to
  right; a match at the current position is replaced and the scan resumes after its
  twenty characters, otherwise the character is kept.
\<close>

definition matchesAWS :: "string \<Rightarrow> bool" where
  "matchesAWS s =
     (startsWith s ''AKIA'' \<and> 20 \<le> length s \<and>
      list_all (\<lambda>c. isDigit c \<or> isUpper c) (take 16 (drop 4 s)))"

function replaceAWS :: "string \<Rightarrow> string" where
  "replaceAWS [] = []"
| "replaceAWS (c # cs) =
     (if matchesAWS (c # cs) then ''AKIA...REDACTED'' @ replaceAWS (drop 19 cs)
      else c # replaceAWS cs)"
  by pat_completeness auto

termination
  by (relation "measure length") auto

text \<open>
  \<^verbatim>\<open>hasHighEntropy\<close>: the Shannon entropy of the character frequencies, in bits per
  character, compared with 4. The source computes it in double precision; the model
  uses exact real arithmetic.
\<close>

definition entropy :: "string \<Rightarrow> real" where
  "entropy s =
     (\<Sum>c\<in>set s. - ((real (count_list s c) / real (length s)) *
        log 2 (real (count_list s c) / real (length s))))"

definition hasHighEntropy :: "string \<Rightarrow> bool" where
  "hasHighEntropy s = (entropy s > 4)"

text \<open>
  In exact arithmetic the comparison is one between natural numbers: with \<open>n\<close> the
  length and \<open>k\<close> ranging over the character counts, the entropy exceeds 4 bits iff
  \<open>16 ^ n * (\<Prod>k. k ^ k) < n ^ n\<close>. This form evaluates (over \<open>int\<close>, whose numerals
  are binary).
\<close>

definition entropyBound :: "string \<Rightarrow> bool" where
  "entropyBound s =
     ((16::int) ^ length s *
        prod_list (map (\<lambda>c. int (count_list s c) ^ count_list s c) (remdups s))
        < int (length s) ^ length s)"

text \<open>
  \<^verbatim>\<open>str.replace(/[A-Za-z0-9+/=]{32,}/g, callback)\<close>: the quantifier is greedy, so
  every match is a maximal run of characters of the class, and a run shorter than 32 is
  no match. The scan keeps the run read so far and hands it to the callback when it
  ends.
\<close>

definition isSecretChar :: "char \<Rightarrow> bool" where
  "isSecretChar c =
     (isUpper c \<or> isLower c \<or> isDigit c \<or> c = CHR ''+'' \<or> c = CHR ''/'' \<or> c = CHR ''='')"

definition redactMatch :: "string \<Rightarrow> string" where
  "redactMatch run =
     (if 32 \<le> length run
      then (if hasHighEntropy run then take 4 run @ ''...REDACTED'' else run)
      else run)"

fun replaceSecrets :: "string \<Rightarrow> string \<Rightarrow> string" where
  "replaceSecrets run [] = redactMatch run"
| "replaceSecrets run (c # cs) =
     (if isSecretChar c then replaceSecrets (run @ [c]) cs
      else redactMatch run @ c # replaceSecrets [] cs)"

definition redactPatternsInString :: "string \<Rightarrow> string" where
  "redactPatternsInString str = replaceSecrets [] (replaceAWS str)"

text \<open>The values inside an object or an array are smaller than it.\<close>

lemma size_snd_le_size_list:
  "p \<in> set kvs \<Longrightarrow> size (snd p) \<le> size_list (size_prod (\<lambda>x. 0) size) kvs"
  by (induction kvs) auto

lemma size_enumerate_le_size_list:
  "p \<in> set (enumerate n xs) \<Longrightarrow> size (snd p) \<le> size_list size xs"
proof -
  assume "p \<in> set (enumerate n xs)"
  then have "fst p - n < length xs" and "xs ! (fst p - n) = snd p"
    by (auto simp: in_set_enumerate_eq)
  then have "snd p \<in> set xs"
    using nth_mem [of "fst p - n" xs] by simp
  then show ?thesis
    by (induction xs) auto
qed

text \<open>
  \<^verbatim>\<open>filterObjectRecursive\<close> walks the own properties of an object or the indices of
  an array and rewrites the value in place; the model returns the rewritten value.
\<close>

function filterObjectRecursive :: "json \<Rightarrow> json"
  and filterProperty :: "string \<Rightarrow> json \<Rightarrow> json" where
  "filterObjectRecursive (JObj kvs) =
     JObj (map (\<lambda>p. (fst p, filterProperty (fst p) (snd p))) kvs)"
| "filterObjectRecursive (JArr xs) =
     JArr (map (\<lambda>p. filterProperty (indexKey (fst p)) (snd p)) (enumerate 0 xs))"
| "filterObjectRecursive JNull = JNull"
| "filterObjectRecursive (JBool b) = JBool b"
| "filterObjectRecursive (JNum n) = JNum n"
| "filterObjectRecursive (JStr s) = JStr s"
| "filterProperty key (JStr s) =
     JStr (redactPatternsInString (if isSensitiveKey key then redactSecret s else s))"
| "filterProperty key (JObj kvs) = filterObjectRecursive (JObj kvs)"
| "filterProperty key (JArr xs) = filterObjectRecursive (JArr xs)"
| "filterProperty key JNull = JNull"
| "filterProperty key (JBool b) = JBool b"
| "filterProperty key (JNum n) = JNum n"
  by pat_completeness auto

termination
proof (relation "measure (\<lambda>x. case x of Inl j \<Rightarrow> 2 * size j | Inr (k, j) \<Rightarrow> 2 * size j + 1)")
  fix kvs :: "(string \<times> json) list" and x
  assume "x \<in> set kvs"
  then show "(Inr (fst x, snd x), Inl (JObj kvs))
      \<in> measure (\<lambda>x. case x of Inl j \<Rightarrow> 2 * size j | Inr (k, j) \<Rightarrow> 2 * size j + 1)"
    using size_snd_le_size_list [of x kvs] by (simp add: case_prod_beta)
next
  fix xs :: "json list" and x
  assume "x \<in> set (enumerate 0 xs)"
  then show "(Inr (indexKey (fst x), snd x), Inl (JArr xs))
      \<in> measure (\<lambda>x. case x of Inl j \<Rightarrow> 2 * size j | Inr (k, j) \<Rightarrow> 2 * size j + 1)"
    using size_enumerate_le_size_list [of x 0 xs] by simp
qed auto

text \<open>
  \<^verbatim>\<open>filterSensitiveData\<close>: a value that is not an object is returned as it is;
  otherwise a deep copy (\<^verbatim>\<open>JSON.parse(JSON.stringify(data))\<close>, the identity on JSON
  values) is filtered.
\<close>

definition filterSensitiveData :: "json \<Rightarrow> json" where
  "filterSensitiveData data =
     (if \<not> isObject data then data else filterObjectRecursive data)"

section \<open>Reading a filtered value back\<close>

text \<open>
  A path names a place inside a JSON value: a property of an object by its key, an
  element of an array by its index.
\<close>

datatype step = Key string | Idx nat

fun getProp :: "json \<Rightarrow> step \<Rightarrow> json option" where
  "getProp (JObj kvs) (Key k) = map_of kvs k"
| "getProp (JArr xs) (Idx i) = (if i < length xs then Some (xs ! i) else None)"
| "getProp v st = None"

fun follow :: "json \<Rightarrow> step list \<Rightarrow> json option" where
  "follow v [] = Some v"
| "follow v (st # p) = (case getProp v st of None \<Rightarrow> None | Some w \<Rightarrow> follow w p)"

section \<open>JSON.stringify\<close>

text \<open>
  The tracer measures a payload by the length of its serialisation. The serialiser is
  the compact form of \<^verbatim>\<open>JSON.stringify\<close>: no white space, strings in double quotes with
  the quote, the backslash and the control characters escaped.
\<close>

definition hexDigit :: "nat \<Rightarrow> char" where
  "hexDigit n = (if n < 10 then char_of (48 + n) else char_of (87 + n))"

definition escapeChar :: "char \<Rightarrow> string" where
  "escapeChar c =
     (let n = (of_char c :: nat) in
      if n = 34 then [CHR 0x5C, CHR 0x22]
      else if n = 92 then [CHR 0x5C, CHR 0x5C]
      else if n = 8 then [CHR 0x5C, CHR ''b'']
      else if n = 12 then [CHR 0x5C, CHR ''f'']
      else if n = 10 then [CHR 0x5C, CHR ''n'']
      else if n = 13 then [CHR 0x5C, CHR ''r'']
      else if n = 9 then [CHR 0x5C, CHR ''t'']
      else if n < 32 then
        [CHR 0x5C, CHR ''u'', CHR ''0'', CHR ''0'', hexDigit (n div 16), hexDigit (n mod 16)]
      else [c])"

definition quoteStr :: "string \<Rightarrow> string" where
  "quoteStr s = CHR 0x22 # concat (map escapeChar s) @ [CHR 0x22]"

fun joinWith :: "string \<Rightarrow> string list \<Rightarrow> string" where
  "joinWith sep [] = []"
| "joinWith sep [x] = x"
| "joinWith sep (x # y # ys) = x @ sep @ joinWith sep (y # ys)"

lemma size_elem_le_size_list: "x \<in> set xs \<Longrightarrow> size x \<le> size_list size xs"
  by (induction xs) auto

function stringify :: "json \<Rightarrow> string" where
  "stringify JNull = ''null''"
| "stringify (JBool b) = (if b then ''true'' else ''false'')"
| "stringify (JNum n) = showInt n"
| "stringify (JStr s) = quoteStr s"
| "stringify (JArr xs) = ''['' @ joinWith '','' (map stringify xs) @ '']''"
| "stringify (JObj kvs) =
     ''{'' @ joinWith '','' (map (\<lambda>p. quoteStr (fst p) @ '':'' @ stringify (snd p)) kvs) @ ''}''"
  by pat_completeness auto

termination
proof (relation "measure size")
  fix xs :: "json list" and x
  assume "x \<in> set xs"
  then show "(x, JArr xs) \<in> measure size"
    using size_elem_le_size_list [of x xs] by simp
next
  fix kvs :: "(string \<times> json) list" and x
  assume "x \<in> set kvs"
  then show "(snd x, JObj kvs) \<in> measure size"
    using size_snd_le_size_list [of x kvs] by simp
qed simp

section \<open>ExecutionTracer\<close>

text \<open>
  A JavaScript \<^verbatim>\<open>Map\<close> is an association list: \<open>map_of\<close> reads it, \<open>AList.update\<close>
  is \<^verbatim>\<open>set\<close> (a new key goes last, a known key keeps its place) and \<open>AList.delete\<close>
  is \<^verbatim>\<open>delete\<close>. Each reading of \<^verbatim>\<open>Date.now()\<close> and the random suffix of a span
  id are arguments of the operation that takes them.
\<close>

datatype component = Agent | Orchestrator | McpTool

record TraceEntry =
  traceId :: string
  spanId :: string
  parentSpanId :: "string option"
  timestamp :: int
  duration :: "int option"
  component :: component
  componentId :: string
  action :: string
  input :: "json option"
  output' :: "json option"
  error :: "string option"
  tags :: "(string \<times> string) list"

record ExecutionTracer =
  traces :: "(string \<times> TraceEntry list) list"
  activeSpans :: "(string \<times> TraceEntry) list"

definition startTrace :: "ExecutionTracer \<Rightarrow> string \<Rightarrow> ExecutionTracer" where
  "startTrace tr tid =
     (if map_of (traces tr) tid = None
      then tr\<lparr>traces := AList.update tid [] (traces tr)\<rparr>
      else tr)"

definition generateSpanId :: "int \<Rightarrow> string \<Rightarrow> string" where
  "generateSpanId now rnd = ''span-'' @ showInt now @ ''-'' @ rnd"

definition sanitizeForLogging :: "json option \<Rightarrow> json option" where
  "sanitizeForLogging data =
     (case data of
        None \<Rightarrow> None
      | Some JNull \<Rightarrow> Some JNull
      | Some d \<Rightarrow>
          (let str = stringify d in
           if int (length str) > 1000
           then Some (JStr (''[Large object: '' @ showNat (length str) @ '' bytes]''))
           else Some d))"

text \<open>
  \<^verbatim>\<open>startSpan\<close>: the arguments after the tracer are the reading of the clock inside
  \<^verbatim>\<open>generateSpanId\<close>, its random suffix, the reading for the entry's time stamp, and
  the fields of \<^verbatim>\<open>StartSpanParams\<close>.
\<close>

definition startSpan ::
  "ExecutionTracer \<Rightarrow> int \<Rightarrow> string \<Rightarrow> int \<Rightarrow> component \<Rightarrow> string \<Rightarrow> string \<Rightarrow>
   string option \<Rightarrow> json option \<Rightarrow> (string \<times> string) list option \<Rightarrow>
   string \<times> ExecutionTracer" where
  "startSpan tr idTime rnd now cmp cmpId act parent inp tgs =
     (let sid = generateSpanId idTime rnd;
          tid = (case parent of None \<Rightarrow> sid | Some p \<Rightarrow> if p \<noteq> [] then p else sid);
          entry = \<lparr>traceId = tid, spanId = sid, parentSpanId = parent, timestamp = now,
                   duration = None, component = cmp, componentId = cmpId, action = act,
                   input = sanitizeForLogging inp, output' = None, error = None,
                   tags = (case tgs of None \<Rightarrow> [] | Some t \<Rightarrow> t)\<rparr>;
          tr1 = tr\<lparr>activeSpans := AList.update sid entry (activeSpans tr)\<rparr>;
          tr2 = (if map_of (traces tr1) tid = None then startTrace tr1 tid else tr1)
      in (sid, tr2))"

text \<open>
  \<^verbatim>\<open>endSpan\<close>: the arguments after the span id are the \<^verbatim>\<open>output\<close>, \<^verbatim>\<open>error\<close> and
  \<^verbatim>\<open>duration\<close> of the result object; \<open>now\<close> is the reading taken when no duration
  (or the duration 0) is given.
\<close>

definition endSpan ::
  "ExecutionTracer \<Rightarrow> int \<Rightarrow> string \<Rightarrow> json option \<Rightarrow> string option \<Rightarrow> int option \<Rightarrow>
   ExecutionTracer" where
  "endSpan tr now sid out err dur =
     (case map_of (activeSpans tr) sid of
        None \<Rightarrow> tr
      | Some sp \<Rightarrow>
          (let sp' = sp\<lparr>
                 duration := Some (case dur of
                     None \<Rightarrow> now - timestamp sp
                   | Some d \<Rightarrow> if d \<noteq> 0 then d else now - timestamp sp),
                 output' := (case out of
                     None \<Rightarrow> None
                   | Some v \<Rightarrow> if truthy v then sanitizeForLogging (Some v) else None),
                 error := err\<rparr>;
               tr1 = (case map_of (traces tr) (traceId sp') of
                     None \<Rightarrow> tr
                   | Some trace \<Rightarrow>
                       tr\<lparr>traces := AList.update (traceId sp') (trace @ [sp']) (traces tr)\<rparr>)
           in tr1\<lparr>activeSpans := AList.delete sid (activeSpans tr1)\<rparr>))"

definition getTrace :: "ExecutionTracer \<Rightarrow> string \<Rightarrow> TraceEntry list" where
  "getTrace tr tid = (case map_of (traces tr) tid of None \<Rightarrow> [] | Some entries \<Rightarrow> entries)"

section \<open>RateLimitTracker\<close>

record RateLimitConfig =
  requestsPerMinute :: int
  maxConcurrentRequests :: int

record RateLimitTracker =
  requestCounts :: "(string \<times> int list) list"
  config :: RateLimitConfig

definition newRateLimitTracker :: "RateLimitConfig \<Rightarrow> RateLimitTracker" where
  "newRateLimitTracker cfg = \<lparr>requestCounts = [], config = cfg\<rparr>"

text \<open>The time stamps recorded for a key: \<^verbatim>\<open>this.requestCounts.get(key) || []\<close>.\<close>

definition window :: "RateLimitTracker \<Rightarrow> string \<Rightarrow> int list" where
  "window rl key = (case map_of (requestCounts rl) key of None \<Rightarrow> [] | Some ts \<Rightarrow> ts)"

definition allowRequest :: "RateLimitTracker \<Rightarrow> string \<Rightarrow> int \<Rightarrow> bool \<times> RateLimitTracker" where
  "allowRequest rl key now =
     (let oneMinuteAgo = now - 60000;
          timestamps = filter (\<lambda>ts. ts > oneMinuteAgo) (window rl key)
      in if int (length timestamps) \<ge> requestsPerMinute (config rl) then (False, rl)
         else (True, rl\<lparr>requestCounts :=
                 AList.update key (timestamps @ [now]) (requestCounts rl)\<rparr>))"

text \<open>A caller that sends one request after the other, at the given readings of the clock.\<close>

fun allowRequests :: "RateLimitTracker \<Rightarrow> string \<Rightarrow> int list \<Rightarrow> bool list \<times> RateLimitTracker" where
  "allowRequests rl key [] = ([], rl)"
| "allowRequests rl key (t # ts) =
     (let (ok, rl1) = allowRequest rl key t;
          (oks, rl2) = allowRequests rl1 key ts
      in (ok # oks, rl2))"

section \<open>SecurityGuardrails: access control and input sanitization\<close>

text \<open>A thrown \<^verbatim>\<open>Error\<close>: its \<^verbatim>\<open>code\<close> property, when it has one, and its message.\<close>

datatype jsError = JsError (errorCode: "string option") (errorMessage: string)

definition accessControl :: "(string \<times> string list) list" where
  "accessControl =
     [(''planner-agent'', [''git-api'', ''metrics-analyzer'']),
      (''security-agent'', [''code-analysis'', ''security-db'', ''git-api'']),
      (''quality-agent'', [''code-analysis'', ''git-api'', ''metrics-analyzer'']),
      (''validator-agent'', [''security-db'', ''llm-inference'']),
      (''prioritizer-agent'', [''metrics-analyzer'', ''compliance-engine'', ''llm-inference'']),
      (''explainer-agent'', [''security-db'', ''llm-inference'']),
      (''ui-composer-agent'', [''llm-inference''])]"

definition validateAgentAccess :: "string \<Rightarrow> string \<Rightarrow> bool" where
  "validateAgentAccess agentId toolId =
     (case map_of accessControl agentId of
        None \<Rightarrow> False
      | Some allowedTools \<Rightarrow> List.member allowedTools toolId)"

text \<open>
  The object spread \<^verbatim>\<open>{ ...v }\<close>: the own properties, those of an array or a string
  under their indices, none of any other value.
\<close>

fun spread :: "json \<Rightarrow> (string \<times> json) list" where
  "spread (JObj kvs) = kvs"
| "spread (JArr xs) = map (\<lambda>p. (indexKey (fst p), snd p)) (enumerate 0 xs)"
| "spread (JStr s) = map (\<lambda>p. (indexKey (fst p), JStr [snd p])) (enumerate 0 s)"
| "spread v = []"

text \<open>\<^verbatim>\<open>a || b\<close> on two property reads; \<open>None\<close> is \<^verbatim>\<open>undefined\<close>.\<close>

definition orElse :: "json option \<Rightarrow> json option \<Rightarrow> json option" where
  "orElse a b = (case a of None \<Rightarrow> b | Some v \<Rightarrow> if truthy v then Some v else b)"

text \<open>
  \<^verbatim>\<open>v.includes(s)\<close> for whatever \<open>v\<close> is: the substring test on a string, the
  membership test on an array, a \<^verbatim>\<open>TypeError\<close> otherwise (with the message of V8; \<open>nm\<close>
  is the name of the variable in the source).
\<close>

fun jsIncludes :: "string \<Rightarrow> json \<Rightarrow> string \<Rightarrow> jsError + bool" where
  "jsIncludes nm (JStr p) s = Inr (includesStr p s)"
| "jsIncludes nm (JArr xs) s = Inr (List.member xs (JStr s))"
| "jsIncludes nm JNull s =
     Inl (JsError None ''Cannot read properties of null (reading 'includes')'')"
| "jsIncludes nm v s = Inl (JsError None (nm @ ''.includes is not a function''))"

definition checkPath :: "(string \<times> json) list \<Rightarrow> jsError option" where
  "checkPath sanitized =
     (case orElse (map_of sanitized ''repo_path'') (map_of sanitized ''file_path'') of
        None \<Rightarrow> None
      | Some path \<Rightarrow>
          if \<not> truthy path then None
          else (case jsIncludes ''path'' path ''..'' of
                  Inl e \<Rightarrow> Some e
                | Inr True \<Rightarrow> Some (JsError None ''Path traversal detected'')
                | Inr False \<Rightarrow>
                    (case jsIncludes ''path'' path ''~'' of
                       Inl e \<Rightarrow> Some e
                     | Inr True \<Rightarrow> Some (JsError None ''Path traversal detected'')
                     | Inr False \<Rightarrow> None)))"

fun checkFiles :: "json list \<Rightarrow> jsError option" where
  "checkFiles [] = None"
| "checkFiles (f # fs) =
     (case jsIncludes ''file'' f ''..'' of
        Inl e \<Rightarrow> Some e
      | Inr True \<Rightarrow> Some (JsError None ''Path traversal detected in file list'')
      | Inr False \<Rightarrow> checkFiles fs)"

text \<open>\<^verbatim>\<open>replace(/[\x00-\x1F\x7F]/g, '')\<close> on the string properties of the copy.\<close>

definition stripControl :: "string \<Rightarrow> string" where
  "stripControl s = filter (\<lambda>c. \<not> ((of_char c :: nat) \<le> 31 \<or> (of_char c :: nat) = 127)) s"

fun stripProperty :: "string \<times> json \<Rightarrow> string \<times> json" where
  "stripProperty (k, JStr s) = (k, JStr (stripControl s))"
| "stripProperty (k, v) = (k, v)"

definition sanitizeToolInput :: "json \<Rightarrow> jsError + json" where
  "sanitizeToolInput params =
     (if \<not> isObject params then Inr params
      else
        (let sanitized = spread params in
         case checkPath sanitized of
           Some e \<Rightarrow> Inl e
         | None \<Rightarrow>
             (case (case map_of sanitized ''files'' of
                      Some (JArr fs) \<Rightarrow> checkFiles fs
                    | _ \<Rightarrow> None) of
                Some e \<Rightarrow> Inl e
              | None \<Rightarrow> Inr (JObj (map stripProperty sanitized)))))"

section \<open>MCPRegistry\<close>

datatype authType = ApiKey | OAuth | NoAuth

record Authentication =
  authType :: authType
  header :: "string option"
  token :: "string option"

text \<open>
  A tool definition as it reaches \<^verbatim>\<open>register\<close>: the three fields the validation
  tests may be missing (\<open>None\<close>).
\<close>

record MCPToolDefinition =
  id' :: "string option"
  name :: string
  endpoint :: "string option"
  capabilities :: "string list option"
  healthCheck :: string
  authentication :: "Authentication option"
  rateLimits :: RateLimitConfig

text \<open>
  The request and the result of an invocation. The field \<^verbatim>\<open>method\<close> of the request is
  \<open>method'\<close>, that of the metadata \<open>method''\<close>; the field \<^verbatim>\<open>error\<close> of the result is
  \<open>error'\<close>.
\<close>

record SecurityContext =
  agentId :: string
  sessionId :: string
  userId :: "string option"

record ToolInvocationRequest =
  toolId :: string
  method' :: string
  params :: json
  securityContext :: SecurityContext

record ErrorInfo =
  code :: string
  message :: string
  retryable :: bool

record Metadata =
  duration_ms :: int
  tool_id :: string
  method'' :: string

record ToolInvocationResult =
  success :: bool
  data :: "json option"
  error' :: "ErrorInfo option"
  metadata :: Metadata

record MCPRegistry =
  tools :: "(string \<times> MCPToolDefinition) list"
  rateLimitTrackers :: "(string \<times> RateLimitTracker) list"
  tracer :: ExecutionTracer

text \<open>\<^verbatim>\<open>!s\<close> for a string property that may be missing.\<close>

definition falsyStr :: "string option \<Rightarrow> bool" where
  "falsyStr s = (case s of None \<Rightarrow> True | Some v \<Rightarrow> v = [])"

definition register :: "MCPRegistry \<Rightarrow> MCPToolDefinition \<Rightarrow> jsError + MCPRegistry" where
  "register reg tool =
     (if falsyStr (id' tool) \<or> falsyStr (endpoint tool) \<or> capabilities tool = None
      then Inl (JsError None ''Invalid tool definition'')
      else Inr (reg\<lparr>tools := AList.update (the (id' tool)) tool (tools reg),
                    rateLimitTrackers :=
                      AList.update (the (id' tool)) (newRateLimitTracker (rateLimits tool))
                        (rateLimitTrackers reg)\<rparr>))"

definition findByCapability :: "MCPRegistry \<Rightarrow> string \<Rightarrow> MCPToolDefinition list" where
  "findByCapability reg capability =
     filter (\<lambda>tool. case capabilities tool of None \<Rightarrow> False | Some caps \<Rightarrow> List.member caps capability)
       (map snd (tools reg))"

definition getTool :: "MCPRegistry \<Rightarrow> string \<Rightarrow> MCPToolDefinition option" where
  "getTool reg tid = map_of (tools reg) tid"

text \<open>
  The readings of \<^verbatim>\<open>Date.now()\<close> one invocation takes, in the order of the source:
  the start time, the two readings of \<^verbatim>\<open>startSpan\<close> (span id, time stamp), the
  reading of \<^verbatim>\<open>allowRequest\<close>, the reading for the duration and the reading \<^verbatim>\<open>endSpan\<close>
  takes when the duration is 0; and the random suffix of the span id.
\<close>

record Clock =
  startTime :: int
  spanIdTime :: int
  spanRandom :: string
  spanTime :: int
  rateTime :: int
  endTime :: int
  endSpanTime :: int

definition retryableCodes :: "string list" where
  "retryableCodes = [''ECONNREFUSED'', ''ETIMEDOUT'', ''RATE_LIMIT_EXCEEDED'']"

definition isRetryableError :: "jsError \<Rightarrow> bool" where
  "isRetryableError e =
     (case errorCode e of None \<Rightarrow> False | Some c \<Rightarrow> List.member retryableCodes c)"

text \<open>The \<^verbatim>\<open>catch\<close> block of \<^verbatim>\<open>invokeTool\<close>.\<close>

definition invocationFailed ::
  "MCPRegistry \<Rightarrow> Clock \<Rightarrow> ToolInvocationRequest \<Rightarrow> string \<Rightarrow> jsError \<Rightarrow>
   ToolInvocationResult \<times> MCPRegistry" where
  "invocationFailed reg clk req sid e =
     (let dur = endTime clk - startTime clk;
          tr = endSpan (tracer reg) (endSpanTime clk) sid None (Some (errorMessage e)) (Some dur)
      in (\<lparr>success = False, data = None,
           error' = Some \<lparr>
             code = (case errorCode e of
                       None \<Rightarrow> ''TOOL_INVOCATION_ERROR''
                     | Some c \<Rightarrow> if c \<noteq> [] then c else ''TOOL_INVOCATION_ERROR''),
             message = errorMessage e,
             retryable = isRetryableError e\<rparr>,
           metadata = \<lparr>duration_ms = dur, tool_id = toolId req, method'' = method' req\<rparr>\<rparr>,
          reg\<lparr>tracer := tr\<rparr>))"

text \<open>
  An invocation that has reached \<^verbatim>\<open>await this.callToolAPI(...)\<close>: what the rest of
  the function needs when the call settles.
\<close>

record PendingCall =
  pendingSpan :: string
  pendingTool :: MCPToolDefinition
  pendingRequest :: ToolInvocationRequest
  pendingParams :: json

text \<open>
  \<^verbatim>\<open>invokeTool\<close> up to the external call: either the invocation has failed (\<open>Inl\<close>,
  with the result of the \<^verbatim>\<open>catch\<close> block) or the call is under way (\<open>Inr\<close>).
\<close>

definition invokeTool_begin ::
  "MCPRegistry \<Rightarrow> Clock \<Rightarrow> ToolInvocationRequest \<Rightarrow>
   (ToolInvocationResult \<times> MCPRegistry) + (PendingCall \<times> MCPRegistry)" where
  "invokeTool_begin reg clk req =
     (let ctx = securityContext req;
          (sid, tr) = startSpan (tracer reg) (spanIdTime clk) (spanRandom clk) (spanTime clk)
                        McpTool (toolId req) (method' req) (Some (sessionId ctx))
                        (Some (params req)) None;
          reg1 = reg\<lparr>tracer := tr\<rparr>
      in case getTool reg1 (toolId req) of
           None \<Rightarrow>
             Inl (invocationFailed reg1 clk req sid
                    (JsError None (''Tool '' @ toolId req @ '' not found in registry'')))
         | Some tool \<Rightarrow>
             if \<not> validateAgentAccess (agentId ctx) (toolId req) then
               Inl (invocationFailed reg1 clk req sid
                      (JsError None (''Agent '' @ agentId ctx @ '' not authorized to access '' @
                         toolId req)))
             else
               (case map_of (rateLimitTrackers reg1) (toolId req) of
                  None \<Rightarrow>
                    Inl (invocationFailed reg1 clk req sid
                           (JsError None
                              ''Cannot read properties of undefined (reading 'allowRequest')''))
                | Some rateLimiter \<Rightarrow>
                    (case allowRequest rateLimiter (sessionId ctx) (rateTime clk) of
                       (False, rl) \<Rightarrow>
                         Inl (invocationFailed reg1 clk req sid
                                (JsError None (''Rate limit exceeded for '' @ toolId req)))
                     | (True, rl) \<Rightarrow>
                         (let reg2 = reg1\<lparr>rateLimitTrackers :=
                                AList.update (toolId req) rl (rateLimitTrackers reg1)\<rparr>
                          in case sanitizeToolInput (params req) of
                               Inl e \<Rightarrow> Inl (invocationFailed reg2 clk req sid e)
                             | Inr sanitizedParams \<Rightarrow>
                                 Inr (\<lparr>pendingSpan = sid, pendingTool = tool,
                                       pendingRequest = req,
                                       pendingParams = sanitizedParams\<rparr>, reg2)))))"

text \<open>
  \<^verbatim>\<open>invokeTool\<close> from the moment the external call settles, with a response or with
  the error \<^verbatim>\<open>callToolAPI\<close> throws.
\<close>

definition invokeTool_end ::
  "MCPRegistry \<Rightarrow> Clock \<Rightarrow> PendingCall \<Rightarrow> jsError + json \<Rightarrow>
   ToolInvocationResult \<times> MCPRegistry" where
  "invokeTool_end reg clk p settled =
     (case settled of
        Inl e \<Rightarrow> invocationFailed reg clk (pendingRequest p) (pendingSpan p) e
      | Inr response \<Rightarrow>
          (let filteredOutput = filterSensitiveData response;
               dur = endTime clk - startTime clk;
               tr = endSpan (tracer reg) (endSpanTime clk) (pendingSpan p)
                      (Some filteredOutput) None (Some dur)
           in (\<lparr>success = True, data = Some filteredOutput, error' = None,
                metadata = \<lparr>duration_ms = dur, tool_id = toolId (pendingRequest p),
                             method'' = method' (pendingRequest p)\<rparr>\<rparr>,
               reg\<lparr>tracer := tr\<rparr>)))"

text \<open>
  One invocation run to its end with nothing in between. \<open>callToolAPI\<close> is the HTTP
  exchange with the tool server: from the tool, the method and the sanitized parameters
  to the response body or the error thrown.
\<close>

definition invokeTool ::
  "(MCPToolDefinition \<Rightarrow> string \<Rightarrow> json \<Rightarrow> jsError + json) \<Rightarrow>
   MCPRegistry \<Rightarrow> Clock \<Rightarrow> ToolInvocationRequest \<Rightarrow> ToolInvocationResult \<times> MCPRegistry" where
  "invokeTool callToolAPI reg clk req =
     (case invokeTool_begin reg clk req of
        Inl finished \<Rightarrow> finished
      | Inr (p, reg1) \<Rightarrow>
          invokeTool_end reg1 clk p
            (callToolAPI (pendingTool p) (method' req) (pendingParams p)))"

definition newExecutionTracer :: ExecutionTracer where
  "newExecutionTracer = \<lparr>traces = [], activeSpans = []\<rparr>"

definition newMCPRegistry :: "ExecutionTracer \<Rightarrow> MCPRegistry" where
  "newMCPRegistry tr = \<lparr>tools = [], rateLimitTrackers = [], tracer = tr\<rparr>"

text \<open>The rate window of a (tool id, session id) pair.\<close>

definition rateWindow :: "MCPRegistry \<Rightarrow> string \<Rightarrow> string \<Rightarrow> int list" where
  "rateWindow reg tid sid =
     (case map_of (rateLimitTrackers reg) tid of None \<Rightarrow> [] | Some rl \<Rightarrow> window rl sid)"

text \<open>The registry as \<^verbatim>\<open>invokeTool\<close> leaves it when it fails early or reaches the call.\<close>

definition registryAtCall ::
  "(ToolInvocationResult \<times> MCPRegistry) + (PendingCall \<times> MCPRegistry) \<Rightarrow> MCPRegistry" where
  "registryAtCall r = (case r of Inl x \<Rightarrow> snd x | Inr y \<Rightarrow> snd y)"

section \<open>A registry with one tool\<close>

text \<open>
  The \<open>git-api\<close> registration of the server, with the two limits left open, the
  registry that holds it alone, and the request the planner agent sends for a session.
\<close>

definition gitApi :: "int \<Rightarrow> int \<Rightarrow> MCPToolDefinition" where
  "gitApi perMinute concurrent =
     \<lparr>id' = Some ''git-api'', name = ''Git Repository API'',
      endpoint = Some ''http://localhost:8083'',
      capabilities = Some [''scan_repository'', ''get_recent_changes'', ''get_file_blame''],
      healthCheck = ''http://localhost:8083/health'',
      authentication = Some \<lparr>authType = NoAuth, header = None, token = None\<rparr>,
      rateLimits = \<lparr>requestsPerMinute = perMinute, maxConcurrentRequests = concurrent\<rparr>\<rparr>"

definition gitApiRegistry :: "int \<Rightarrow> int \<Rightarrow> MCPRegistry" where
  "gitApiRegistry perMinute concurrent =
     projr (register (newMCPRegistry newExecutionTracer) (gitApi perMinute concurrent))"

definition scanRequest :: "string \<Rightarrow> string \<Rightarrow> ToolInvocationRequest" where
  "scanRequest sid repoPath =
     \<lparr>toolId = ''git-api'', method' = ''scan_repository'',
      params = JObj [(''repo_path'', JStr repoPath)],
      securityContext = \<lparr>agentId = ''planner-agent'', sessionId = sid, userId = None\<rparr>\<rparr>"

text \<open>A clock that reads \<open>t\<close> throughout an invocation and \<open>t + d\<close> at its end.\<close>

definition clockAt :: "int \<Rightarrow> int \<Rightarrow> string \<Rightarrow> Clock" where
  "clockAt t d rnd =
     \<lparr>startTime = t, spanIdTime = t, spanRandom = rnd, spanTime = t, rateTime = t,
      endTime = t + d, endSpanTime = t + d\<rparr>"

section \<open>Invocations in flight\<close>

text \<open>
  An invocation of a tool is in flight from its \<^verbatim>\<open>startSpan\<close> to its \<^verbatim>\<open>endSpan\<close>:
  as long as its span is among the active spans of the tracer.
\<close>

definition inFlight :: "MCPRegistry \<Rightarrow> string \<Rightarrow> nat" where
  "inFlight reg tid =
     length (filter (\<lambda>p. component (snd p) = McpTool \<and> componentId (snd p) = tid)
       (activeSpans (tracer reg)))"

section \<open>BaseAgent\<close>

text \<open>
  An agent is its id, its name and its \<^verbatim>\<open>run\<close> method (fields \<open>agentIdent\<close>, \<open>agentName\<close>
  and \<open>run\<close>). \<^verbatim>\<open>run\<close> is abstract in the source: here it is a function from the
  registry it may call (the tracer inside), the session id and the input to the result
  or the error thrown, and the registry as it leaves it.
\<close>

record BaseAgent =
  agentIdent :: string
  agentName :: string
  run :: "MCPRegistry \<Rightarrow> string \<Rightarrow> json \<Rightarrow> (jsError + json) \<times> MCPRegistry"

text \<open>
  \<^verbatim>\<open>execute\<close>: of the clock it reads the two readings of \<^verbatim>\<open>startSpan\<close> and the
  reading of \<^verbatim>\<open>endSpan\<close>.
\<close>

definition execute ::
  "BaseAgent \<Rightarrow> Clock \<Rightarrow> MCPRegistry \<Rightarrow> string \<Rightarrow> json \<Rightarrow> (jsError + json) \<times> MCPRegistry" where
  "execute agent clk reg sid inp =
     (let (spn, tr) = startSpan (tracer reg) (spanIdTime clk) (spanRandom clk) (spanTime clk)
                        Agent (agentIdent agent) ''execute'' (Some sid) (Some inp) None;
          reg1 = reg\<lparr>tracer := tr\<rparr>
      in case run agent reg1 sid inp of
           (Inr result, reg2) \<Rightarrow>
             (Inr result,
              reg2\<lparr>tracer := endSpan (tracer reg2) (endSpanTime clk) spn (Some result) None None\<rparr>)
         | (Inl e, reg2) \<Rightarrow>
             (Inl e,
              reg2\<lparr>tracer := endSpan (tracer reg2) (endSpanTime clk) spn None
                                 (Some (errorMessage e)) None\<rparr>))"

text \<open>The helper \<^verbatim>\<open>BaseAgent.invokeTool\<close>: the agent's own id is the caller.\<close>

definition agentInvokeTool ::
  "(MCPToolDefinition \<Rightarrow> string \<Rightarrow> json \<Rightarrow> jsError + json) \<Rightarrow> Clock \<Rightarrow> string \<Rightarrow>
   MCPRegistry \<Rightarrow> string \<Rightarrow> string \<Rightarrow> json \<Rightarrow> string \<Rightarrow> (jsError + json option) \<times> MCPRegistry" where
  "agentInvokeTool callToolAPI clk aid reg tid meth ps sid =
     (let (result, reg1) = invokeTool callToolAPI reg clk
            \<lparr>toolId = tid, method' = meth, params = ps,
             securityContext = \<lparr>agentId = aid, sessionId = sid, userId = None\<rparr>\<rparr>
      in if \<not> success result
         then (Inl (JsError None (''Tool invocation failed: '' @
                 (case error' result of None \<Rightarrow> ''undefined'' | Some e \<Rightarrow> message e))), reg1)
         else (Inr (data result), reg1))"

text \<open>
  A planner that does the first step of \<^verbatim>\<open>PlannerAgent.run\<close>, the scan of the
  repository through \<open>git-api\<close>, and returns the scan as its plan.
\<close>

definition scanningPlanner ::
  "(MCPToolDefinition \<Rightarrow> string \<Rightarrow> json \<Rightarrow> jsError + json) \<Rightarrow> Clock \<Rightarrow> BaseAgent" where
  "scanningPlanner callToolAPI clk =
     \<lparr>agentIdent = ''planner-agent'', agentName = ''Planner Agent'',
      run = (\<lambda>reg sid inp.
        case agentInvokeTool callToolAPI clk ''planner-agent'' reg ''git-api'' ''scan_repository''
               (JObj (case getProp inp (Key ''repoPath'') of
                        None \<Rightarrow> []
                      | Some p \<Rightarrow> [(''repo_path'', p)])) sid of
          (Inl e, reg1) \<Rightarrow> (Inl e, reg1)
        | (Inr None, reg1) \<Rightarrow> (Inr JNull, reg1)
        | (Inr (Some d), reg1) \<Rightarrow> (Inr d, reg1))\<rparr>"

text \<open>What a trace shows of each span: its kind, its id and its parent.\<close>

definition spanLinks :: "TraceEntry list \<Rightarrow> (component \<times> string \<times> string option) list" where
  "spanLinks entries = map (\<lambda>e. (component e, spanId e, parentSpanId e)) entries"

section \<open>OrchestratorRuntime\<close>

datatype status = Planning | Running | Completed | Failed

record Summary =
  critical :: nat
  high :: nat
  medium :: nat
  low :: nat
  totalFindings :: nat

record AuditResults =
  summary :: Summary
  findings :: "json option"
  complianceScore :: "json option"
  remediationPlan :: "json option"
  uiSpec :: "json option"

text \<open>
  A session object (fields \<^verbatim>\<open>id\<close>, \<^verbatim>\<open>status\<close>, \<^verbatim>\<open>startedAt\<close>, \<^verbatim>\<open>completedAt\<close>,
  \<^verbatim>\<open>results\<close>, \<^verbatim>\<open>error\<close>).
\<close>

record AuditSession =
  ident :: string
  status :: status
  startedAt :: int
  completedAt :: "int option"
  results :: "AuditResults option"
  errorText :: "string option"

record AuditRequest =
  repoPath :: string
  requestUserId :: "string option"
  options :: "json option"

text \<open>
  The session objects live in a store, one address each; \<^verbatim>\<open>activeSessions\<close> maps a
  session id to the address of its object, and a reference to a session is an address.
  The subscribers of the \<^verbatim>\<open>EventEmitter\<close> are kept by event name, in the order of their
  registration; a subscriber returns (\<open>None\<close>) or throws (\<open>Some\<close>).
\<close>

record OrchestratorRuntime =
  registry :: MCPRegistry
  agents :: "(string \<times> BaseAgent) list"
  sessionStore :: "(nat \<times> AuditSession) list"
  activeSessions :: "(string \<times> nat) list"
  listeners :: "(string \<times> (json \<Rightarrow> jsError option) list) list"

definition newOrchestratorRuntime :: OrchestratorRuntime where
  "newOrchestratorRuntime =
     \<lparr>registry = newMCPRegistry newExecutionTracer, agents = [], sessionStore = [],
      activeSessions = [], listeners = []\<rparr>"

definition registerAgent :: "OrchestratorRuntime \<Rightarrow> BaseAgent \<Rightarrow> OrchestratorRuntime" where
  "registerAgent rt agent = rt\<lparr>agents := AList.update (agentIdent agent) agent (agents rt)\<rparr>"


fun callListeners :: "(json \<Rightarrow> jsError option) list \<Rightarrow> json \<Rightarrow> jsError option" where
  "callListeners [] payload = None"
| "callListeners (l # ls) payload =
     (case l payload of Some e \<Rightarrow> Some e | None \<Rightarrow> callListeners ls payload)"

definition emit :: "OrchestratorRuntime \<Rightarrow> string \<Rightarrow> json \<Rightarrow> jsError option" where
  "emit rt ev payload =
     (case map_of (listeners rt) ev of None \<Rightarrow> None | Some ls \<Rightarrow> callListeners ls payload)"

text \<open>Reading and writing a session object through a reference.\<close>

definition sessionAt :: "OrchestratorRuntime \<Rightarrow> nat \<Rightarrow> AuditSession option" where
  "sessionAt rt a = map_of (sessionStore rt) a"

definition modifySession ::
  "nat \<Rightarrow> (AuditSession \<Rightarrow> AuditSession) \<Rightarrow> OrchestratorRuntime \<Rightarrow> OrchestratorRuntime" where
  "modifySession a f rt =
     (case map_of (sessionStore rt) a of
        None \<Rightarrow> rt
      | Some s \<Rightarrow> rt\<lparr>sessionStore := AList.update a (f s) (sessionStore rt)\<rparr>)"

definition getSession :: "OrchestratorRuntime \<Rightarrow> string \<Rightarrow> nat option" where
  "getSession rt sid = map_of (activeSessions rt) sid"

text \<open>
  A step of the coordinator either throws or returns a value, and leaves a runtime.
\<close>

type_synonym 'a action = "OrchestratorRuntime \<Rightarrow> (jsError + 'a) \<times> OrchestratorRuntime"

definition andThen :: "'a action \<Rightarrow> ('a \<Rightarrow> 'b action) \<Rightarrow> 'b action" where
  "andThen m f rt = (case m rt of (Inl e, rt1) \<Rightarrow> (Inl e, rt1) | (Inr x, rt1) \<Rightarrow> f x rt1)"

definition succeed :: "'a \<Rightarrow> 'a action" where
  "succeed x rt = (Inr x, rt)"

definition emitEvent :: "string \<Rightarrow> json \<Rightarrow> unit action" where
  "emitEvent ev payload rt =
     (case emit rt ev payload of Some e \<Rightarrow> (Inl e, rt) | None \<Rightarrow> (Inr (), rt))"

definition attempt :: "jsError + 'a \<Rightarrow> 'a action" where
  "attempt r rt = (r, rt)"

definition change :: "(OrchestratorRuntime \<Rightarrow> OrchestratorRuntime) \<Rightarrow> unit action" where
  "change f rt = (Inr (), f rt)"

text \<open>
  The property read \<^verbatim>\<open>v.k\<close> on a result (the keys read are no array index and not
  \<^verbatim>\<open>length\<close>): a \<^verbatim>\<open>TypeError\<close> on \<^verbatim>\<open>null\<close>, the property of an object, \<^verbatim>\<open>undefined\<close>
  on anything else.
\<close>

fun readProp :: "json \<Rightarrow> string \<Rightarrow> jsError + json option" where
  "readProp JNull k =
     Inl (JsError None (''Cannot read properties of null (reading '' @ [CHR 0x27] @ k @
            [CHR 0x27] @ '')''))"
| "readProp (JObj kvs) k = Inr (map_of kvs k)"
| "readProp v k = Inr None"

text \<open>A property of an object literal: left out when its value is \<^verbatim>\<open>undefined\<close>.\<close>

definition field :: "string \<Rightarrow> json option \<Rightarrow> (string \<times> json) list" where
  "field k v = (case v of None \<Rightarrow> [] | Some x \<Rightarrow> [(k, x)])"

text \<open>
  What one run of the pipeline takes from outside: the id \<^verbatim>\<open>uuidv4()\<close> returns, the
  readings of the clock for \<^verbatim>\<open>startedAt\<close> and for \<^verbatim>\<open>completedAt\<close> (on completion, on
  failure), and the clock each agent's \<^verbatim>\<open>execute\<close> reads.
\<close>

record AuditEnv =
  sessionUuid :: string
  startedAtTime :: int
  completedAtTime :: int
  failedAtTime :: int
  agentClock :: "string \<Rightarrow> Clock"

definition agentEvent :: "string \<Rightarrow> string \<Rightarrow> (string \<times> json) list \<Rightarrow> json" where
  "agentEvent sid aid extra = JObj ([(''sessionId'', JStr sid), (''agentId'', JStr aid)] @ extra)"

definition progressEvent :: "string \<Rightarrow> string \<Rightarrow> json" where
  "progressEvent sid stage = JObj [(''sessionId'', JStr sid), (''stage'', JStr stage)]"

text \<open>The \<^verbatim>\<open>catch\<close> block of \<^verbatim>\<open>runAgent\<close>.\<close>

definition agentFailed :: "string \<Rightarrow> string \<Rightarrow> jsError \<Rightarrow> json action" where
  "agentFailed aid sid e rt =
     (case emit rt ''agent:failed'' (agentEvent sid aid [(''error'', JStr (errorMessage e))]) of
        Some thrown \<Rightarrow> (Inl thrown, rt)
      | None \<Rightarrow> (Inl e, rt))"

definition runAgent :: "AuditEnv \<Rightarrow> string \<Rightarrow> string \<Rightarrow> json \<Rightarrow> json action" where
  "runAgent env aid sid inp rt =
     (case map_of (agents rt) aid of
        None \<Rightarrow> (Inl (JsError None (''Agent '' @ aid @ '' not found'')), rt)
      | Some agent \<Rightarrow>
          (case emit rt ''agent:started'' (agentEvent sid aid []) of
             Some thrown \<Rightarrow> (Inl thrown, rt)
           | None \<Rightarrow>
               (case execute agent (agentClock env aid) (registry rt) sid inp of
                  (Inr result, reg1) \<Rightarrow>
                    (case emit (rt\<lparr>registry := reg1\<rparr>) ''agent:completed''
                            (agentEvent sid aid [(''result'', result)]) of
                       None \<Rightarrow> (Inr result, rt\<lparr>registry := reg1\<rparr>)
                     | Some thrown \<Rightarrow> agentFailed aid sid thrown (rt\<lparr>registry := reg1\<rparr>))
                | (Inl e, reg1) \<Rightarrow> agentFailed aid sid e (rt\<lparr>registry := reg1\<rparr>))))"

text \<open>\<^verbatim>\<open>request.options?.frameworks || ['PCI-DSS']\<close>.\<close>

definition frameworksOf :: "json option \<Rightarrow> json" where
  "frameworksOf opts =
     (case opts of
        None \<Rightarrow> JArr [JStr ''PCI-DSS'']
      | Some JNull \<Rightarrow> JArr [JStr ''PCI-DSS'']
      | Some ob \<Rightarrow>
          (case readProp ob ''frameworks'' of
             Inr (Some v) \<Rightarrow> if truthy v then v else JArr [JStr ''PCI-DSS'']
           | _ \<Rightarrow> JArr [JStr ''PCI-DSS'']))"

text \<open>
  The parallel stage, \<^verbatim>\<open>await Promise.all([...])\<close> over three calls of \<^verbatim>\<open>runAgent\<close>.
  All three calls are made, whatever the others do. The model lets the three agents run
  one after the other in the order of the array, and the stage fails with the first
  failure in that order.
\<close>

definition parallelAnalysis ::
  "AuditEnv \<Rightarrow> string \<Rightarrow> json \<Rightarrow> AuditRequest \<Rightarrow> (json \<times> json \<times> json) action" where
  "parallelAnalysis env sid plan request rt =
     (let (r1, rt1) = runAgent env ''security-agent'' sid plan rt;
          (r2, rt2) = runAgent env ''quality-agent'' sid plan rt1;
          (r3, rt3) = runAgent env ''compliance-agent'' sid
                        (JObj (AList.update ''frameworks'' (frameworksOf (options request))
                                 (spread plan))) rt2
      in case r1 of
           Inl e \<Rightarrow> (Inl e, rt3)
         | Inr securityResults \<Rightarrow>
             (case r2 of
                Inl e \<Rightarrow> (Inl e, rt3)
              | Inr qualityResults \<Rightarrow>
                  (case r3 of
                     Inl e \<Rightarrow> (Inl e, rt3)
                   | Inr complianceResults \<Rightarrow>
                       (Inr (securityResults, qualityResults, complianceResults), rt3))))"

text \<open>\<^verbatim>\<open>v.slice(0, 10)\<close> for whatever \<open>v\<close> is.\<close>

definition sliceTop :: "json option \<Rightarrow> jsError + json" where
  "sliceTop v =
     (case v of
        None \<Rightarrow> Inl (JsError None ''Cannot read properties of undefined (reading 'slice')'')
      | Some JNull \<Rightarrow> Inl (JsError None ''Cannot read properties of null (reading 'slice')'')
      | Some (JArr xs) \<Rightarrow> Inr (JArr (take 10 xs))
      | Some (JStr s) \<Rightarrow> Inr (JStr (take 10 s))
      | Some other \<Rightarrow>
          Inl (JsError None ''prioritizationResults.prioritizedFindings.slice is not a function''))"

text \<open>\<^verbatim>\<open>calculateSummary\<close>: the loop over the findings, then the function.\<close>

definition severityOf :: "json \<Rightarrow> jsError + json option" where
  "severityOf finding =
     (case readProp finding ''severity'' of
        Inl e \<Rightarrow> Inl e
      | Inr (Some v) \<Rightarrow> if truthy v then Inr (Some v) else readProp finding ''original_severity''
      | Inr None \<Rightarrow> readProp finding ''original_severity'')"

fun countSeverities :: "Summary \<Rightarrow> json list \<Rightarrow> jsError + Summary" where
  "countSeverities acc [] = Inr acc"
| "countSeverities acc (finding # rest) =
     (case severityOf finding of
        Inl e \<Rightarrow> Inl e
      | Inr severity \<Rightarrow>
          countSeverities
            (if severity = Some (JStr ''critical'') then acc\<lparr>critical := critical acc + 1\<rparr>
             else if severity = Some (JStr ''high'') then acc\<lparr>high := high acc + 1\<rparr>
             else if severity = Some (JStr ''medium'') then acc\<lparr>medium := medium acc + 1\<rparr>
             else if severity = Some (JStr ''low'') then acc\<lparr>low := low acc + 1\<rparr>
             else acc) rest)"

definition calculateSummary :: "json option \<Rightarrow> jsError + Summary" where
  "calculateSummary fs =
     (case fs of
        None \<Rightarrow> Inl (JsError None ''Cannot read properties of undefined (reading 'length')'')
      | Some JNull \<Rightarrow> Inl (JsError None ''Cannot read properties of null (reading 'length')'')
      | Some (JArr xs) \<Rightarrow>
          countSeverities
            \<lparr>critical = 0, high = 0, medium = 0, low = 0, totalFindings = length xs\<rparr> xs
      | Some other \<Rightarrow> Inl (JsError None ''findings.forEach is not a function''))"

definition summaryJson :: "Summary \<Rightarrow> json" where
  "summaryJson s =
     JObj [(''critical'', JNum (int (critical s))), (''high'', JNum (int (high s))),
           (''medium'', JNum (int (medium s))), (''low'', JNum (int (low s))),
           (''totalFindings'', JNum (int (totalFindings s)))]"

definition resultsJson :: "AuditResults \<Rightarrow> json" where
  "resultsJson r =
     JObj ([(''summary'', summaryJson (summary r))] @ field ''findings'' (findings r) @
           field ''complianceScore'' (complianceScore r) @
           field ''remediationPlan'' (remediationPlan r) @ field ''uiSpec'' (uiSpec r))"

definition requestJson :: "AuditRequest \<Rightarrow> json" where
  "requestJson r =
     JObj ([(''repoPath'', JStr (repoPath r))] @
           field ''userId'' (map_option JStr (requestUserId r)) @ field ''options'' (options r))"

text \<open>
  \<^verbatim>\<open>runAudit\<close>: first the body of its \<^verbatim>\<open>try\<close> block, for the session object the
  lookup has found, then the function with the lookup. The \<^verbatim>\<open>catch\<close> block of the source
  rethrows, so a step that throws ends the function with that error.
\<close>

definition auditSteps :: "AuditEnv \<Rightarrow> string \<Rightarrow> AuditRequest \<Rightarrow> nat \<Rightarrow> unit action" where
  "auditSteps env sid request session =
         (andThen (change (modifySession session (\<lambda>s. s\<lparr>status := Planning\<rparr>))) (\<lambda>u.
          andThen (emitEvent ''audit:progress'' (progressEvent sid ''planning'')) (\<lambda>u.
          andThen (\<lambda>rt. case map_of (agents rt) ''planner-agent'' of
                          None \<Rightarrow> (Inl (JsError None ''Planner agent not found''), rt)
                        | Some agent \<Rightarrow> (Inr agent, rt)) (\<lambda>plannerAgent.
          andThen (\<lambda>rt. case execute plannerAgent (agentClock env ''planner-agent'') (registry rt)
                                 sid (JObj [(''repoPath'', JStr (repoPath request))]) of
                          (r, reg1) \<Rightarrow> (r, rt\<lparr>registry := reg1\<rparr>)) (\<lambda>plan.
          andThen (emitEvent ''agent:completed''
                     (agentEvent sid ''planner-agent'' [(''result'', plan)])) (\<lambda>u.
          andThen (change (modifySession session (\<lambda>s. s\<lparr>status := Running\<rparr>))) (\<lambda>u.
          andThen (emitEvent ''audit:progress'' (progressEvent sid ''analysis'')) (\<lambda>u.
          andThen (parallelAnalysis env sid plan request) (\<lambda>analysis.
          (case analysis of (securityResults, qualityResults, complianceResults) \<Rightarrow>
          andThen (emitEvent ''audit:progress'' (progressEvent sid ''validation'')) (\<lambda>u.
          andThen (attempt (readProp securityResults ''findings'')) (\<lambda>securityFindings.
          andThen (attempt (readProp qualityResults ''findings'')) (\<lambda>qualityFindings.
          andThen (runAgent env ''validator-agent'' sid
                     (JObj (field ''securityFindings'' securityFindings @
                            field ''qualityFindings'' qualityFindings))) (\<lambda>validationResults.
          andThen (emitEvent ''audit:progress'' (progressEvent sid ''prioritization'')) (\<lambda>u.
          andThen (attempt (readProp validationResults ''validatedFindings'')) (\<lambda>validatedFindings.
          andThen (runAgent env ''prioritizer-agent'' sid
                     (JObj (field ''findings'' validatedFindings @
                            field ''businessContext'' (options request)))) (\<lambda>prioritizationResults.
          andThen (emitEvent ''audit:progress'' (progressEvent sid ''explanation'')) (\<lambda>u.
          andThen (attempt (readProp prioritizationResults ''prioritizedFindings'')) (\<lambda>prioritizedFindings.
          andThen (attempt (sliceTop prioritizedFindings)) (\<lambda>topFindings.
          andThen (runAgent env ''explainer-agent'' sid
                     (JObj [(''findings'', topFindings)])) (\<lambda>explainerResults.
          andThen (emitEvent ''audit:progress'' (progressEvent sid ''ui-generation'')) (\<lambda>u.
          andThen (attempt (readProp explainerResults ''explanations'')) (\<lambda>explanations.
          andThen (attempt (readProp complianceResults ''score'')) (\<lambda>score.
          andThen (attempt (readProp prioritizationResults ''remediationPlan'')) (\<lambda>plan'.
          andThen (runAgent env ''ui-composer-agent'' sid
                     (JObj (field ''findings'' prioritizedFindings @
                            field ''explanations'' explanations @
                            field ''complianceScore'' score @
                            field ''remediationPlan'' plan'))) (\<lambda>uiComposerResults.
          andThen (change (modifySession session
                     (\<lambda>s. s\<lparr>status := Completed,
                             completedAt := Some (completedAtTime env)\<rparr>))) (\<lambda>u.
          andThen (attempt (calculateSummary prioritizedFindings)) (\<lambda>counts.
          andThen (attempt (readProp uiComposerResults ''uiSpec'')) (\<lambda>spec.
          andThen (change (modifySession session
                     (\<lambda>s. s\<lparr>results := Some \<lparr>summary = counts, findings = prioritizedFindings,
                                               complianceScore = score, remediationPlan = plan',
                                               uiSpec = spec\<rparr>\<rparr>))) (\<lambda>u.
          (\<lambda>rt. case sessionAt rt session of
                  None \<Rightarrow> (Inr (), rt)
                | Some s \<Rightarrow>
                    emitEvent ''audit:completed''
                      (JObj ([(''sessionId'', JStr sid)] @
                             field ''results'' (map_option resultsJson (results s)) @
                             [(''duration'', JNum (completedAtTime env - startedAt s))]))
                      rt)))))))))))))))))))))))))))))))"

definition runAudit :: "AuditEnv \<Rightarrow> string \<Rightarrow> AuditRequest \<Rightarrow> unit action" where
  "runAudit env sid request rt =
     (case map_of (activeSessions rt) sid of
        None \<Rightarrow>
          (Inl (JsError None ''Cannot set properties of undefined (setting 'status')''), rt)
      | Some session \<Rightarrow> auditSteps env sid request session rt)"

text \<open>
  \<^verbatim>\<open>startAudit\<close> up to the event \<^verbatim>\<open>audit:started\<close>: the new session object, its entry
  in \<^verbatim>\<open>activeSessions\<close> and its trace. It returns the session id and the reference to
  the session object that the \<^verbatim>\<open>catch\<close> handler of the background run keeps.
\<close>

definition startAudit_begin :: "AuditEnv \<Rightarrow> AuditRequest \<Rightarrow> (string \<times> nat) action" where
  "startAudit_begin env request rt =
     (let sid = sessionUuid env;
          session = length (sessionStore rt);
          rt1 = rt\<lparr>sessionStore := AList.update session
                      \<lparr>ident = sid, status = Planning, startedAt = startedAtTime env,
                       completedAt = None, results = None, errorText = None\<rparr>
                      (sessionStore rt),
                    activeSessions := AList.update sid session (activeSessions rt)\<rparr>;
          rt2 = rt1\<lparr>registry := (registry rt1)\<lparr>tracer := startTrace (tracer (registry rt1)) sid\<rparr>\<rparr>
      in case emit rt2 ''audit:started''
                (JObj [(''sessionId'', JStr sid), (''request'', requestJson request)]) of
           Some thrown \<Rightarrow> (Inl thrown, rt2)
         | None \<Rightarrow> (Inr (sid, session), rt2))"

text \<open>
  The handler of \<^verbatim>\<open>runAudit(...).catch(...)\<close>. What a subscriber of \<^verbatim>\<open>audit:failed\<close>
  throws is an unhandled rejection and changes nothing.
\<close>

definition auditFailed ::
  "AuditEnv \<Rightarrow> string \<Rightarrow> nat \<Rightarrow> jsError \<Rightarrow> OrchestratorRuntime \<Rightarrow> OrchestratorRuntime" where
  "auditFailed env sid session e rt =
     (let rt1 = modifySession session
                  (\<lambda>s. s\<lparr>status := Failed, errorText := Some (errorMessage e),
                          completedAt := Some (failedAtTime env)\<rparr>) rt
      in case emit rt1 ''audit:failed''
                (JObj [(''sessionId'', JStr sid), (''error'', JStr (errorMessage e))]) of
           Some unhandled \<Rightarrow> rt1
         | None \<Rightarrow> rt1)"

text \<open>\<^verbatim>\<open>startAudit\<close> with the background run brought to its end.\<close>

definition startAudit :: "AuditEnv \<Rightarrow> AuditRequest \<Rightarrow> string action" where
  "startAudit env request rt =
     (case startAudit_begin env request rt of
        (Inl e, rt1) \<Rightarrow> (Inl e, rt1)
      | (Inr (sid, session), rt1) \<Rightarrow>
          (case runAudit env sid request rt1 of
             (Inl e, rt2) \<Rightarrow> (Inr sid, auditFailed env sid session e rt2)
           | (Inr u, rt2) \<Rightarrow> (Inr sid, rt2)))"

text \<open>\<^verbatim>\<open>getTrace\<close> of the runtime reads the tracer the registry and the agents share.\<close>

definition sessionTrace :: "OrchestratorRuntime \<Rightarrow> string \<Rightarrow> TraceEntry list" where
  "sessionTrace rt sid = getTrace (tracer (registry rt)) sid"

section \<open>A runtime with the seven stages\<close>

text \<open>
  An agent that returns a fixed result and calls no tool, the runtime of the server with
  the \<open>git-api\<close> tool, the scanning planner and such an agent for every other stage, and
  the inputs of one run.
\<close>

definition fixedAgent :: "string \<Rightarrow> json \<Rightarrow> BaseAgent" where
  "fixedAgent aid result =
     \<lparr>agentIdent = aid, agentName = aid, run = (\<lambda>reg sid inp. (Inr result, reg))\<rparr>"

definition sampleFinding :: json where
  "sampleFinding = JObj [(''id'', JStr ''F-1''), (''severity'', JStr ''high'')]"

definition sampleRuntime :: OrchestratorRuntime where
  "sampleRuntime =
     foldl registerAgent (newOrchestratorRuntime\<lparr>registry := gitApiRegistry 15 3\<rparr>)
       [scanningPlanner (\<lambda>tool m ps. Inr (JObj [(''files'', JArr [])])) (clockAt 2001 50 ''tool''),
        fixedAgent ''security-agent'' (JObj [(''findings'', JArr [sampleFinding])]),
        fixedAgent ''quality-agent'' (JObj [(''findings'', JArr [])]),
        fixedAgent ''compliance-agent'' (JObj [(''score'', JObj [(''PCI-DSS'', JNum 80)])]),
        fixedAgent ''validator-agent'' (JObj [(''validatedFindings'', JArr [sampleFinding])]),
        fixedAgent ''prioritizer-agent''
          (JObj [(''prioritizedFindings'', JArr [sampleFinding]), (''remediationPlan'', JObj [])]),
        fixedAgent ''explainer-agent'' (JObj [(''explanations'', JArr [])]),
        fixedAgent ''ui-composer-agent'' (JObj [(''uiSpec'', JObj [])])]"

definition sampleEnv :: AuditEnv where
  "sampleEnv =
     \<lparr>sessionUuid = ''s1'', startedAtTime = 1000, completedAtTime = 9000, failedAtTime = 9500,
      agentClock = (\<lambda>aid. clockAt 2000 100 aid)\<rparr>"

definition sampleRequest :: AuditRequest where
  "sampleRequest = \<lparr>repoPath = ''/repo'', requestUserId = None, options = None\<rparr>"

text \<open>The status and the error of the session of an id, read from the store.\<close>

definition statusOf :: "OrchestratorRuntime \<Rightarrow> string \<Rightarrow> (status \<times> string option) option" where
  "statusOf rt sid =
     (case getSession rt sid of
        None \<Rightarrow> None
      | Some session \<Rightarrow> map_option (\<lambda>s. (status s, errorText s)) (sessionAt rt session))"

section \<open>Subscribers and the outcome of a session\<close>

text \<open>Subscribers that return normally, whatever the payload.\<close>

definition wellBehaved :: "(string \<times> (json \<Rightarrow> jsError option) list) list \<Rightarrow> bool" where
  "wellBehaved ls = list_all (\<lambda>entry. list_all (\<lambda>l. \<forall>payload. l payload = None) (snd entry)) ls"

text \<open>
  Two runtimes that differ in their subscribers only, all of them well behaved; a step is
  blind when on two such runtimes it gives the same outcome and leaves two such runtimes.
\<close>

definition alike :: "OrchestratorRuntime \<Rightarrow> OrchestratorRuntime \<Rightarrow> bool" where
  "alike rt rt' =
     (wellBehaved (listeners rt) \<and> wellBehaved (listeners rt') \<and>
      rt' = rt\<lparr>listeners := listeners rt'\<rparr>)"

definition blind :: "'a action \<Rightarrow> bool" where
  "blind act =
     (\<forall>rt rt'. alike rt rt' \<longrightarrow>
        fst (act rt) = fst (act rt') \<and> alike (snd (act rt)) (snd (act rt')))"

section \<open>One run of the sample runtime\<close>

text \<open>
  What is observed of a run of \<^verbatim>\<open>startAudit\<close>: what it returns, the status and the error
  of the session object behind a reference, and the span links of the session's trace.
\<close>

definition runSummary ::
  "(jsError + string) \<times> OrchestratorRuntime \<Rightarrow> nat \<Rightarrow> string \<Rightarrow>
   (jsError + string) \<times> (status \<times> string option) option \<times>
   (component \<times> string \<times> string option) list" where
  "runSummary r session sid =
     (fst r, map_option (\<lambda>s. (status s, errorText s)) (sessionAt (snd r) session),
      spanLinks (sessionTrace (snd r) sid))"

section \<open>The output filter: properties\<close>

lemma count_pos: "c \<in> set s \<Longrightarrow> 0 < count_list s c"
  using count_list_0_iff [of s c] by auto

lemma sum_counts: "(\<Sum>c\<in>set s. count_list s c) = length s"
  by (rule sum_count_set) auto

lemma prod_list_remdups:
  "prod_list (map f (remdups s)) = (\<Prod>c\<in>set s. f c)"
  using prod.distinct_set_conv_list [of "remdups s" f] by simp

lemma entropy_times_length:
  assumes "s \<noteq> []"
  shows "real (length s) * entropy s =
     real (length s) * log 2 (real (length s)) -
     (\<Sum>c\<in>set s. real (count_list s c) * log 2 (real (count_list s c)))"
proof -
  let ?n = "real (length s)"
  have n: "0 < ?n" using assms by simp
  have "?n * entropy s =
      (\<Sum>c\<in>set s. ?n * - ((real (count_list s c) / ?n) * log 2 (real (count_list s c) / ?n)))"
    unfolding entropy_def by (simp only: sum_distrib_left)
  also have "\<dots> = (\<Sum>c\<in>set s. real (count_list s c) * log 2 ?n
      - real (count_list s c) * log 2 (real (count_list s c)))"
  proof (rule sum.cong)
    fix c assume "c \<in> set s"
    then have c: "0 < real (count_list s c)" using count_pos by simp
    have l: "log 2 (real (count_list s c) / ?n) = log 2 (real (count_list s c)) - log 2 ?n"
      using c n by (simp add: log_divide)
    have m: "?n * - ((real (count_list s c) / ?n) * X) = - (real (count_list s c) * X)" for X
      using n by simp
    show "?n * - ((real (count_list s c) / ?n) * log 2 (real (count_list s c) / ?n))
       = real (count_list s c) * log 2 ?n - real (count_list s c) * log 2 (real (count_list s c))"
      unfolding m l by (simp only: right_diff_distrib)
  qed simp
  also have "\<dots> = (\<Sum>c\<in>set s. real (count_list s c)) * log 2 ?n
      - (\<Sum>c\<in>set s. real (count_list s c) * log 2 (real (count_list s c)))"
    by (simp only: sum_subtractf sum_distrib_right)
  also have "(\<Sum>c\<in>set s. real (count_list s c)) = ?n"
    using sum_counts [of s] by (simp only: flip: of_nat_sum)
  finally show ?thesis .
qed

lemma log_prod_counts:
  "log 2 (\<Prod>c\<in>set s. real (count_list s c) ^ count_list s c) =
   (\<Sum>c\<in>set s. real (count_list s c) * log 2 (real (count_list s c)))"
proof -
  have "log 2 (\<Prod>c\<in>A. real (count_list s c) ^ count_list s c) =
   (\<Sum>c\<in>A. real (count_list s c) * log 2 (real (count_list s c)))" if "finite A" "A \<subseteq> set s" for A
    using that
  proof (induction A rule: finite_induct)
    case empty
    then show ?case by simp
  next
    case (insert x F)
    let ?f = "\<lambda>c. real (count_list s c) ^ count_list s c"
    have x: "0 < real (count_list s x)" using insert.prems count_pos by auto
    then have fx: "0 < ?f x" by simp
    have p: "0 < prod ?f F"
      using insert.prems count_pos by (intro prod_pos) auto
    have "prod ?f (insert x F) = ?f x * prod ?f F"
      using insert.hyps by simp
    then have "log 2 (prod ?f (insert x F)) = log 2 (?f x) + log 2 (prod ?f F)"
      using fx p by (simp only: log_mult) simp
    also have "log 2 (?f x) = real (count_list s x) * log 2 (real (count_list s x))"
      by (rule log_nat_power) simp
    also have "log 2 (prod ?f F) = (\<Sum>c\<in>F. real (count_list s c) * log 2 (real (count_list s c)))"
      using insert by simp
    finally show ?case using insert.hyps by simp
  qed
  then show ?thesis by simp
qed

lemma log2_16_pow: "log 2 ((16::real) ^ n) = 4 * real n"
proof -
  have "(16::real) ^ n = 2 ^ (4 * n)" by (simp add: power_mult)
  then have "log 2 ((16::real) ^ n) = real (4 * n)" by (simp only: log_pow_cancel)
  then show ?thesis by simp
qed

lemma hasHighEntropy_code [code]: "hasHighEntropy s = entropyBound s"
proof (cases "s = []")
  case True
  then show ?thesis by (simp add: hasHighEntropy_def entropy_def entropyBound_def)
next
  case False
  let ?n = "real (length s)"
  let ?P = "(\<Prod>c\<in>set s. real (count_list s c) ^ count_list s c)"
  have n: "0 < ?n" using False by simp
  have P: "0 < ?P" using count_pos by (intro prod_pos) auto
  have "hasHighEntropy s \<longleftrightarrow> ?n * 4 < ?n * entropy s"
    unfolding hasHighEntropy_def using n by (simp only: mult_less_cancel_left_pos)
  also have "\<dots> \<longleftrightarrow> 4 * ?n + log 2 ?P < ?n * log 2 ?n"
    unfolding entropy_times_length [OF False] log_prod_counts less_diff_eq
    by (simp only: mult.commute)
  also have "4 * ?n = log 2 (16 ^ length s)"
    by (simp only: log2_16_pow)
  also have "log 2 (16 ^ length s) + log 2 ?P = log 2 (16 ^ length s * ?P)"
  proof -
    have nz: "?P \<noteq> 0" using P by (metis less_irrefl)
    have nz16: "(16::real) ^ length s \<noteq> 0" by simp
    show ?thesis using nz nz16 by (simp only: log_mult simp_thms if_True)
  qed
  also have "?n * log 2 ?n = log 2 (?n ^ length s)"
    using n by (simp add: log_nat_power)
  also have "log 2 (16 ^ length s * ?P) < log 2 (?n ^ length s) \<longleftrightarrow> 16 ^ length s * ?P < ?n ^ length s"
    using P n by (intro log_less_cancel_iff) auto
  also have "\<dots> \<longleftrightarrow> entropyBound s"
  proof -
    have "16 ^ length s * ?P =
        real_of_int (16 ^ length s * (\<Prod>c\<in>set s. int (count_list s c) ^ count_list s c))"
      by simp
    moreover have "?n ^ length s = real_of_int (int (length s) ^ length s)" by simp
    ultimately show ?thesis
      unfolding entropyBound_def prod_list_remdups
      by (simp only: of_int_less_iff)
  qed
  finally show ?thesis .
qed

lemma replaceAWS_short: "length s < 20 \<Longrightarrow> replaceAWS s = s"
  by (induction s) (auto simp: matchesAWS_def)

lemma replaceSecrets_short:
  "length acc + length s < 32 \<Longrightarrow> replaceSecrets acc s = acc @ s"
  by (induction s arbitrary: acc) (auto simp: redactMatch_def)

lemma length_redactSecret: "length (redactSecret v) \<le> 11"
  by (simp add: redactSecret_def)

lemma redactPatterns_redactSecret:
  "redactPatternsInString (redactSecret v) = redactSecret v"
proof -
  have "length (redactSecret v) \<le> 11" by (rule length_redactSecret)
  then show ?thesis
    by (simp add: redactPatternsInString_def replaceAWS_short replaceSecrets_short)
qed

lemma map_of_filtered:
  "map_of (map (\<lambda>p. (fst p, f (fst p) (snd p))) kvs) k = map_option (f k) (map_of kvs k)"
  by (induction kvs) auto

lemma filterProperty_object: "isObject w \<Longrightarrow> filterProperty key w = filterObjectRecursive w"
  by (cases w) auto

lemma isObject_filter: "isObject (filterObjectRecursive w) = isObject w"
  by (cases w) auto

lemma getProp_filter:
  "getProp d st = Some w \<Longrightarrow>
   \<exists>key. getProp (filterObjectRecursive d) st = Some (filterProperty key w) \<and>
     (\<forall>k. st = Key k \<longrightarrow> key = k)"
proof (cases d)
  case (JObj kvs)
  assume a: "getProp d st = Some w"
  with JObj obtain k where st: "st = Key k" by (cases st) auto
  with a JObj show ?thesis by (simp add: map_of_filtered)
next
  case (JArr xs)
  assume a: "getProp d st = Some w"
  with JArr obtain i where st: "st = Idx i" by (cases st) auto
  with a JArr have i: "i < length xs" and w: "xs ! i = w" by (auto split: if_splits)
  let ?f = "\<lambda>p. filterProperty (indexKey (fst p)) (snd p)"
  have "map ?f (enumerate 0 xs) ! i = ?f (enumerate 0 xs ! i)"
    using i by (simp only: nth_map length_enumerate)
  also have "\<dots> = filterProperty (indexKey i) w"
    using i w by (simp add: nth_enumerate_eq)
  finally have "getProp (filterObjectRecursive d) st = Some (filterProperty (indexKey i) w)"
    using i st JArr by simp
  then show ?thesis using st by blast
qed auto

lemma follow_object: "follow w (st # p) = Some v \<Longrightarrow> isObject w"
  by (cases w; cases st) auto

lemma follow_filter:
  "follow d (p @ [Key k]) = Some (JStr v) \<Longrightarrow>
   follow (filterObjectRecursive d) (p @ [Key k]) = Some (filterProperty k (JStr v))"
proof (induction p arbitrary: d)
  case Nil
  then have "getProp d (Key k) = Some (JStr v)" by (auto split: option.splits)
  from getProp_filter [OF this] show ?case by auto
next
  case (Cons st p)
  then obtain w where w: "getProp d st = Some w" and f: "follow w (p @ [Key k]) = Some (JStr v)"
    by (auto split: option.splits)
  obtain st' p' where "p @ [Key k] = st' # p'" by (cases p) auto
  with f have "isObject w" using follow_object [of w st' p'] by simp
  with getProp_filter [OF w] have "getProp (filterObjectRecursive d) st = Some (filterObjectRecursive w)"
    by (auto simp: filterProperty_object)
  with Cons.IH [OF f] show ?case by simp
qed





lemma filtered_sensitive:
  assumes "follow d (p @ [Key k]) = Some (JStr v)" and "isSensitiveKey k"
  shows "follow (filterSensitiveData d) (p @ [Key k]) = Some (JStr (redactSecret v))"
proof -
  obtain st p' where "p @ [Key k] = st # p'" by (cases p) auto
  with assms(1) have "isObject d" using follow_object [of d st p'] by simp
  then have "filterSensitiveData d = filterObjectRecursive d"
    by (simp add: filterSensitiveData_def)
  with follow_filter [OF assms(1)] assms(2) show ?thesis
    by (simp add: redactPatterns_redactSecret)
qed


text \<open>
  C10: a string of at most 8 characters stored under a key with a secret-like name, at
  any depth of the tool output, comes back as the fixed mask \<open>***\<close>: no character of
  the original value is kept.
\<close>

theorem short_secret_fully_masked:
  assumes "follow d (p @ [Key k]) = Some (JStr v)"
    and "isSensitiveKey k"
    and "length v \<le> 8"
  shows "follow (filterSensitiveData d) (p @ [Key k]) = Some (JStr ''***'')"
  using filtered_sensitive [OF assms(1,2)] assms(3) by (simp add: redactSecret_def)

theorem short_secret_fully_masked_witness:
  "follow (JObj [(''db'', JArr [JObj [(''user'', JStr ''root''), (''Password'', JStr ''hunter2'')]])])
      ([Key ''db'', Idx 0] @ [Key ''Password'']) = Some (JStr ''hunter2'')
   \<and> isSensitiveKey ''Password''
   \<and> length ''hunter2'' \<le> 8
   \<and> follow (filterSensitiveData
         (JObj [(''db'', JArr [JObj [(''user'', JStr ''root''), (''Password'', JStr ''hunter2'')]])]))
      ([Key ''db'', Idx 0] @ [Key ''Password'']) = Some (JStr ''***'')"
proof -
  have h1: "follow (JObj [(''db'', JArr [JObj [(''user'', JStr ''root''), (''Password'', JStr ''hunter2'')]])])
      ([Key ''db'', Idx 0] @ [Key ''Password'']) = Some (JStr ''hunter2'')"
    by simp
  have h2: "isSensitiveKey ''Password''" by code_simp
  have h3: "length ''hunter2'' \<le> 8" by simp
  from short_secret_fully_masked [OF h1 h2 h3] h1 h2 h3 show ?thesis by blast
qed



section \<open>The rate limiter: properties\<close>

lemma allowRequest_admits:
  "fst (allowRequest rl key now) \<longleftrightarrow>
   int (length (filter (\<lambda>ts. now - 60000 < ts) (window rl key))) < requestsPerMinute (config rl)"
  by (simp add: allowRequest_def Let_def)

lemma window_update:
  "window (rl\<lparr>requestCounts := AList.update key ts (requestCounts rl)\<rparr>) key' =
   (if key' = key then ts else window rl key')"
  by (simp add: window_def update_conv')

lemma allowRequest_admitted:
  assumes "fst (allowRequest rl key now)"
  shows "window (snd (allowRequest rl key now)) key =
           filter (\<lambda>ts. now - 60000 < ts) (window rl key) @ [now]"
    and "config (snd (allowRequest rl key now)) = config rl"
  using assms by (simp_all add: allowRequest_def Let_def window_update split: if_splits)

lemma allowRequest_rejected:
  "\<not> fst (allowRequest rl key now) \<Longrightarrow> snd (allowRequest rl key now) = rl"
  by (simp add: allowRequest_def Let_def split: if_splits)

lemma allowRequests_burst:
  assumes "\<forall>t\<in>set ts. \<forall>x\<in>set (window rl key @ ts). t - 60000 < x"
    and "int (length (window rl key) + length ts) \<le> requestsPerMinute (config rl)"
  shows "fst (allowRequests rl key ts) = replicate (length ts) True \<and>
         window (snd (allowRequests rl key ts)) key = window rl key @ ts \<and>
         config (snd (allowRequests rl key ts)) = config rl"
  using assms
proof (induction ts arbitrary: rl)
  case Nil
  then show ?case by simp
next
  case (Cons t ts)
  let ?rl1 = "snd (allowRequest rl key t)"
  have keep: "filter (\<lambda>x. t - 60000 < x) (window rl key) = window rl key"
    using Cons.prems(1) by (auto simp: filter_id_conv)
  then have adm: "fst (allowRequest rl key t)"
    using Cons.prems(2) by (simp add: allowRequest_admits)
  have w1: "window ?rl1 key = window rl key @ [t]" and c1: "config ?rl1 = config rl"
    using allowRequest_admitted [OF adm] keep by simp_all
  have "fst (allowRequests ?rl1 key ts) = replicate (length ts) True \<and>
         window (snd (allowRequests ?rl1 key ts)) key = window ?rl1 key @ ts \<and>
         config (snd (allowRequests ?rl1 key ts)) = config ?rl1"
  proof (rule Cons.IH)
    show "\<forall>t'\<in>set ts. \<forall>x\<in>set (window ?rl1 key @ ts). t' - 60000 < x"
      using Cons.prems(1) w1 by auto
    show "int (length (window ?rl1 key) + length ts) \<le> requestsPerMinute (config ?rl1)"
      using Cons.prems(2) w1 c1 by simp
  qed
  then show ?case using adm w1 c1
    by (simp add: case_prod_beta Let_def)
qed

lemma allowRequests_append:
  "allowRequests rl key (xs @ ys) =
     (fst (allowRequests rl key xs) @ fst (allowRequests (snd (allowRequests rl key xs)) key ys),
      snd (allowRequests (snd (allowRequests rl key xs)) key ys))"
  by (induction xs arbitrary: rl) (simp_all add: case_prod_beta Let_def)

lemma sorted_le_last: "sorted (xs :: int list) \<Longrightarrow> x \<in> set xs \<Longrightarrow> x \<le> last xs"
  by (induction xs) auto

lemma sorted_hd_le: "sorted (xs :: int list) \<Longrightarrow> x \<in> set xs \<Longrightarrow> hd xs \<le> x"
  by (cases xs) auto

lemma sorted_within_window:
  assumes "sorted (stamps :: int list)" and "last stamps - 60000 < hd stamps"
    and "t \<in> set stamps" and "x \<in> set stamps"
  shows "t - 60000 < x"
  using sorted_le_last [OF assms(1,3)] sorted_hd_le [OF assms(1,4)] assms(2) by linarith

lemma allowRequests_full_window:
  assumes w: "window rl key = []"
    and len: "length stamps = nat (requestsPerMinute (config rl)) + 1"
    and pos: "0 \<le> requestsPerMinute (config rl)"
    and srt: "sorted stamps"
    and win: "last stamps - 60000 < hd stamps"
  shows "fst (allowRequests rl key (butlast stamps)) =
           replicate (nat (requestsPerMinute (config rl))) True"
    and "window (snd (allowRequests rl key (butlast stamps))) key = butlast stamps"
    and "config (snd (allowRequests rl key (butlast stamps))) = config rl"
proof -
  have sub: "set (butlast stamps) \<subseteq> set stamps"
    by (auto dest: in_set_butlastD)
  have "\<forall>t\<in>set (butlast stamps). \<forall>x\<in>set (window rl key @ butlast stamps). t - 60000 < x"
    using sorted_within_window [OF srt win] sub w by auto
  moreover have "int (length (window rl key) + length (butlast stamps))
      \<le> requestsPerMinute (config rl)"
    using w len pos by simp
  ultimately have "fst (allowRequests rl key (butlast stamps)) =
        replicate (length (butlast stamps)) True \<and>
      window (snd (allowRequests rl key (butlast stamps))) key =
        window rl key @ butlast stamps \<and>
      config (snd (allowRequests rl key (butlast stamps))) = config rl"
    by (rule allowRequests_burst)
  then show "fst (allowRequests rl key (butlast stamps)) =
           replicate (nat (requestsPerMinute (config rl))) True"
    and "window (snd (allowRequests rl key (butlast stamps))) key = butlast stamps"
    and "config (snd (allowRequests rl key (butlast stamps))) = config rl"
    using w len by simp_all
qed

text \<open>
  C3: a request is admitted iff, after the time stamps older than the 60000 ms window
  are dropped, fewer than \<open>requestsPerMinute\<close> remain for the key (the session, in the
  tracker of one tool). From an empty window, \<open>W + 1\<close> requests at non-decreasing times
  that lie within one window get \<open>W\<close> admissions and then a rejection; once the oldest of
  them is 60000 ms old, the next request is admitted.
\<close>

theorem sliding_window_rate_limit:
  "(fst (allowRequest rl key now) \<longleftrightarrow>
      int (length (filter (\<lambda>ts. now - 60000 < ts) (window rl key)))
        < requestsPerMinute (config rl))
   \<and> (window rl key = [] \<and> 0 \<le> requestsPerMinute (config rl) \<and>
       length stamps = nat (requestsPerMinute (config rl)) + 1 \<and>
       sorted stamps \<and> last stamps - 60000 < hd stamps \<longrightarrow>
         fst (allowRequests rl key stamps) =
           replicate (nat (requestsPerMinute (config rl))) True @ [False]
       \<and> (1 \<le> requestsPerMinute (config rl) \<and> hd stamps + 60000 \<le> later \<longrightarrow>
            fst (allowRequest (snd (allowRequests rl key stamps)) key later)))"
proof (intro conjI impI)
  show "fst (allowRequest rl key now) \<longleftrightarrow>
      int (length (filter (\<lambda>ts. now - 60000 < ts) (window rl key)))
        < requestsPerMinute (config rl)"
    by (rule allowRequest_admits)
next
  assume a: "window rl key = [] \<and> 0 \<le> requestsPerMinute (config rl) \<and>
       length stamps = nat (requestsPerMinute (config rl)) + 1 \<and>
       sorted stamps \<and> last stamps - 60000 < hd stamps"
  let ?W = "requestsPerMinute (config rl)"
  let ?rl1 = "snd (allowRequests rl key (butlast stamps))"
  from a have w: "window rl key = []" and pos: "0 \<le> ?W"
    and len: "length stamps = nat ?W + 1" and srt: "sorted stamps"
    and win: "last stamps - 60000 < hd stamps"
    by blast+
  have ne: "stamps \<noteq> []" using len by auto
  have split: "stamps = butlast stamps @ [last stamps]" using ne by simp
  note full = allowRequests_full_window [OF w len pos srt win]
  have keep: "filter (\<lambda>x. last stamps - 60000 < x) (butlast stamps) = butlast stamps"
    using sorted_within_window [OF srt win last_in_set [OF ne]]
    by (auto simp: filter_id_conv dest: in_set_butlastD)
  have rej: "\<not> fst (allowRequest ?rl1 key (last stamps))"
    using full(2,3) keep len by (simp add: allowRequest_admits)
  have run: "allowRequests rl key stamps =
      (fst (allowRequests rl key (butlast stamps)) @ [fst (allowRequest ?rl1 key (last stamps))],
       snd (allowRequest ?rl1 key (last stamps)))"
    using allowRequests_append [of rl key "butlast stamps" "[last stamps]"] split
    by (simp add: case_prod_beta Let_def)
  show res: "fst (allowRequests rl key stamps) = replicate (nat ?W) True @ [False]"
    using run full(1) rej by simp
  have final: "snd (allowRequests rl key stamps) = ?rl1"
    using run allowRequest_rejected [OF rej] by simp
  {
    assume b: "1 \<le> ?W \<and> hd stamps + 60000 \<le> later"
    then have bl: "butlast stamps \<noteq> []" using len
      by (metis One_nat_def add_diff_cancel_right' length_butlast list.size(3) nat_0_iff
          not_one_le_zero zero_less_one_class.zero_le_one dual_order.trans linorder_not_le
          nat_le_0 less_one)
    then have "hd (butlast stamps) = hd stamps"
      by (metis hd_append2 split)
    then have old: "hd stamps \<in> set (butlast stamps)" using bl by (metis hd_in_set)
    have "\<not> later - 60000 < hd stamps" using b by simp
    with old have "length (filter (\<lambda>x. later - 60000 < x) (butlast stamps))
        < length (butlast stamps)"
      by (rule length_filter_less)
    then have "fst (allowRequest ?rl1 key later)"
      using full(2,3) len by (simp add: allowRequest_admits)
    then have "fst (allowRequest (snd (allowRequests rl key stamps)) key later)"
      using final by simp
  }
  then show "1 \<le> ?W \<and> hd stamps + 60000 \<le> later \<Longrightarrow>
      fst (allowRequest (snd (allowRequests rl key stamps)) key later)"
    by blast
qed

theorem sliding_window_rate_limit_witness:
  "window (newRateLimitTracker \<lparr>requestsPerMinute = 2, maxConcurrentRequests = 1\<rparr>) ''s1'' = []
   \<and> length [1000, 2000, 60999 :: int] = nat 2 + 1
   \<and> sorted [1000, 2000, 60999 :: int]
   \<and> last [1000, 2000, 60999 :: int] - 60000 < hd [1000, 2000, 60999]
   \<and> fst (allowRequests (newRateLimitTracker \<lparr>requestsPerMinute = 2, maxConcurrentRequests = 1\<rparr>)
        ''s1'' [1000, 2000, 60999]) = [True, True, False]
   \<and> hd [1000, 2000, 60999 :: int] + 60000 \<le> 61000
   \<and> fst (allowRequest
        (snd (allowRequests (newRateLimitTracker \<lparr>requestsPerMinute = 2, maxConcurrentRequests = 1\<rparr>)
           ''s1'' [1000, 2000, 60999])) ''s1'' 61000)"
proof -
  let ?rl = "newRateLimitTracker \<lparr>requestsPerMinute = 2, maxConcurrentRequests = 1\<rparr>"
  have c: "requestsPerMinute (config ?rl) = 2" by (simp add: newRateLimitTracker_def)
  have h1: "window ?rl ''s1'' = []" by (simp add: newRateLimitTracker_def window_def)
  have h2: "length [1000, 2000, 60999 :: int] = nat 2 + 1" by simp
  have h3: "sorted [1000, 2000, 60999 :: int]" by simp
  have h4: "last [1000, 2000, 60999 :: int] - 60000 < hd [1000, 2000, 60999]" by simp
  have h5: "hd [1000, 2000, 60999 :: int] + 60000 \<le> 61000" by simp
  have r: "replicate (nat 2) True @ [False] = [True, True, False]"
    by (simp add: numeral_2_eq_2)
  from sliding_window_rate_limit [of ?rl "''s1''" 0 "[1000, 2000, 60999]" 61000]
  have "fst (allowRequests ?rl ''s1'' [1000, 2000, 60999]) = [True, True, False]
      \<and> fst (allowRequest (snd (allowRequests ?rl ''s1'' [1000, 2000, 60999])) ''s1'' 61000)"
    unfolding c using h1 h2 h3 h4 h5 r by simp
  then show ?thesis using h1 h2 h3 h4 h5 by blast
qed

section \<open>The registry: properties\<close>

lemma invocationFailed_frame:
  "tools (snd (invocationFailed reg clk req sid e)) = tools reg"
  "rateLimitTrackers (snd (invocationFailed reg clk req sid e)) = rateLimitTrackers reg"
  by (simp_all add: invocationFailed_def Let_def)

lemma invokeTool_end_frame:
  "tools (snd (invokeTool_end reg clk p settled)) = tools reg"
  "rateLimitTrackers (snd (invokeTool_end reg clk p settled)) = rateLimitTrackers reg"
  by (simp_all add: invokeTool_end_def invocationFailed_frame Let_def split: sum.splits)

lemma invokeTool_trackers:
  "rateLimitTrackers (snd (invokeTool api reg clk req)) =
   rateLimitTrackers (registryAtCall (invokeTool_begin reg clk req))"
  by (simp add: invokeTool_def registryAtCall_def invokeTool_end_frame
      split: sum.splits prod.splits)

lemma begin_rejected_early:
  assumes "getTool reg (toolId req) = None \<or>
           \<not> validateAgentAccess (agentId (securityContext req)) (toolId req)"
  shows "rateLimitTrackers (registryAtCall (invokeTool_begin reg clk req)) = rateLimitTrackers reg"
  using assms
  by (auto simp: invokeTool_begin_def registryAtCall_def Let_def case_prod_beta getTool_def
      invocationFailed_frame split: option.splits)

lemma begin_admitted:
  assumes "getTool reg (toolId req) = Some tool"
    and "validateAgentAccess (agentId (securityContext req)) (toolId req)"
    and "map_of (rateLimitTrackers reg) (toolId req) = Some rl"
    and "fst (allowRequest rl (sessionId (securityContext req)) (rateTime clk))"
  shows "rateLimitTrackers (registryAtCall (invokeTool_begin reg clk req)) =
         AList.update (toolId req)
           (snd (allowRequest rl (sessionId (securityContext req)) (rateTime clk)))
           (rateLimitTrackers reg)"
proof -
  obtain ok rl' where ar: "allowRequest rl (sessionId (securityContext req)) (rateTime clk) = (ok, rl')"
    by (cases "allowRequest rl (sessionId (securityContext req)) (rateTime clk)")
  with assms(4) have ok: "ok" by simp
  show ?thesis
  proof (cases "sanitizeToolInput (params req)")
    case (Inl e)
    then show ?thesis
      using assms(1-3) ar ok
      by (simp add: invokeTool_begin_def registryAtCall_def Let_def case_prod_beta getTool_def
          invocationFailed_frame)
  next
    case (Inr sanitizedParams)
    then show ?thesis
      using assms(1-3) ar ok
      by (simp add: invokeTool_begin_def registryAtCall_def Let_def case_prod_beta getTool_def)
  qed
qed

lemma begin_rate_limited:
  assumes "getTool reg (toolId req) = Some tool"
    and "validateAgentAccess (agentId (securityContext req)) (toolId req)"
    and "map_of (rateLimitTrackers reg) (toolId req) = Some rl"
    and "\<not> fst (allowRequest rl (sessionId (securityContext req)) (rateTime clk))"
  shows "invokeTool_begin reg clk req =
         Inl (invocationFailed
               (reg\<lparr>tracer := snd (startSpan (tracer reg) (spanIdTime clk) (spanRandom clk)
                  (spanTime clk) McpTool (toolId req) (method' req)
                  (Some (sessionId (securityContext req))) (Some (params req)) None)\<rparr>)
               clk req (generateSpanId (spanIdTime clk) (spanRandom clk))
               (JsError None (''Rate limit exceeded for '' @ toolId req)))"
proof -
  obtain ok rl' where ar: "allowRequest rl (sessionId (securityContext req)) (rateTime clk) = (ok, rl')"
    by (cases "allowRequest rl (sessionId (securityContext req)) (rateTime clk)")
  with assms(4) have ok: "\<not> ok" by simp
  have sid: "fst (startSpan tr a b c d e f g h i) = generateSpanId a b" for tr a b c d e f g h i
    by (simp add: startSpan_def Let_def)
  show ?thesis
    using assms(1-3) ar ok
    by (simp add: invokeTool_begin_def Let_def case_prod_beta getTool_def sid)
qed

lemma rateWindow_update:
  "rateWindow (reg\<lparr>rateLimitTrackers := AList.update tid rl (rateLimitTrackers reg)\<rparr>) tid sid =
   window rl sid"
  by (simp add: rateWindow_def update_conv')

text \<open>
  C6 as the code has it: \<^verbatim>\<open>register\<close> throws exactly when the id or the endpoint is
  missing or empty or the capabilities are missing; every other definition, one with an
  empty capability list included, is stored under its id with a fresh rate tracker.
\<close>

theorem register_validation:
  "(isl (register reg tool) \<longleftrightarrow>
      id' tool = None \<or> id' tool = Some [] \<or> endpoint tool = None \<or> endpoint tool = Some [] \<or>
      capabilities tool = None)
   \<and> (\<not> isl (register reg tool) \<longrightarrow>
        getTool (projr (register reg tool)) (the (id' tool)) = Some tool \<and>
        map_of (rateLimitTrackers (projr (register reg tool))) (the (id' tool)) =
          Some (newRateLimitTracker (rateLimits tool)))"
  by (auto simp: register_def falsyStr_def getTool_def update_conv' split: option.splits)

theorem register_validation_witness:
  "\<not> isl (register (newMCPRegistry newExecutionTracer)
       \<lparr>id' = Some ''git-api'', name = ''Git Repository API'',
        endpoint = Some ''http://localhost:8083'',
        capabilities = Some [''scan_repository'', ''get_recent_changes'', ''get_file_blame''],
        healthCheck = ''http://localhost:8083/health'',
        authentication = Some \<lparr>authType = NoAuth, header = None, token = None\<rparr>,
        rateLimits = \<lparr>requestsPerMinute = 15, maxConcurrentRequests = 3\<rparr>\<rparr>)
   \<and> map_of (rateLimitTrackers (projr (register (newMCPRegistry newExecutionTracer)
       \<lparr>id' = Some ''git-api'', name = ''Git Repository API'',
        endpoint = Some ''http://localhost:8083'',
        capabilities = Some [''scan_repository'', ''get_recent_changes'', ''get_file_blame''],
        healthCheck = ''http://localhost:8083/health'',
        authentication = Some \<lparr>authType = NoAuth, header = None, token = None\<rparr>,
        rateLimits = \<lparr>requestsPerMinute = 15, maxConcurrentRequests = 3\<rparr>\<rparr>))) ''git-api'' =
      Some (newRateLimitTracker \<lparr>requestsPerMinute = 15, maxConcurrentRequests = 3\<rparr>)"
proof -
  let ?tool = "\<lparr>id' = Some ''git-api'', name = ''Git Repository API'',
        endpoint = Some ''http://localhost:8083'',
        capabilities = Some [''scan_repository'', ''get_recent_changes'', ''get_file_blame''],
        healthCheck = ''http://localhost:8083/health'',
        authentication = Some \<lparr>authType = NoAuth, header = None, token = None\<rparr>,
        rateLimits = \<lparr>requestsPerMinute = 15, maxConcurrentRequests = 3\<rparr>\<rparr>"
  have ok: "\<not> isl (register (newMCPRegistry newExecutionTracer) ?tool)"
    by (simp add: register_def falsyStr_def)
  from register_validation [of "newMCPRegistry newExecutionTracer" ?tool] ok
  show ?thesis by simp
qed

theorem register_accepts_empty_capabilities:
  "capabilities \<lparr>id' = Some ''scanner'', name = ''Scanner'',
        endpoint = Some ''http://localhost:9000'', capabilities = Some [],
        healthCheck = ''http://localhost:9000/health'', authentication = None,
        rateLimits = \<lparr>requestsPerMinute = 10, maxConcurrentRequests = 3\<rparr>\<rparr> = Some []
   \<and> \<not> isl (register (newMCPRegistry newExecutionTracer)
       \<lparr>id' = Some ''scanner'', name = ''Scanner'',
        endpoint = Some ''http://localhost:9000'', capabilities = Some [],
        healthCheck = ''http://localhost:9000/health'', authentication = None,
        rateLimits = \<lparr>requestsPerMinute = 10, maxConcurrentRequests = 3\<rparr>\<rparr>)
   \<and> map (\<lambda>p. fst p) (tools (projr (register (newMCPRegistry newExecutionTracer)
       \<lparr>id' = Some ''scanner'', name = ''Scanner'',
        endpoint = Some ''http://localhost:9000'', capabilities = Some [],
        healthCheck = ''http://localhost:9000/health'', authentication = None,
        rateLimits = \<lparr>requestsPerMinute = 10, maxConcurrentRequests = 3\<rparr>\<rparr>))) = [''scanner'']"
  by (simp add: register_def falsyStr_def newMCPRegistry_def)

text \<open>
  C4, on the code: what \<^verbatim>\<open>invokeTool\<close> returns when the rate check rejects the
  invocation. It does not throw and the result is no success, but the thrown
  error has no code, so the result carries the code \<open>TOOL_INVOCATION_ERROR\<close> and is not
  retryable; the result has no field for a backoff.
\<close>

theorem rate_limited_invocation_result:
  assumes "getTool reg (toolId req) = Some tool"
    and "validateAgentAccess (agentId (securityContext req)) (toolId req)"
    and "map_of (rateLimitTrackers reg) (toolId req) = Some rl"
    and "\<not> fst (allowRequest rl (sessionId (securityContext req)) (rateTime clk))"
  shows "fst (invokeTool api reg clk req) =
     \<lparr>success = False, data = None,
      error' = Some \<lparr>code = ''TOOL_INVOCATION_ERROR'',
                     message = ''Rate limit exceeded for '' @ toolId req,
                     retryable = False\<rparr>,
      metadata = \<lparr>duration_ms = endTime clk - startTime clk, tool_id = toolId req,
                   method'' = method' req\<rparr>\<rparr>"
  using begin_rate_limited [OF assms]
  by (simp add: invokeTool_def invocationFailed_def Let_def isRetryableError_def)

theorem rate_limited_invocation_result_witness:
  "fst (invokeTool (\<lambda>tool m ps. Inr (JObj []))
         (snd (invokeTool (\<lambda>tool m ps. Inr (JObj [])) (gitApiRegistry 1 1)
                 (clockAt 1000 5 ''k3x9'') (scanRequest ''s1'' ''/repo'')))
         (clockAt 2000 1 ''p7q2'') (scanRequest ''s1'' ''/repo'')) =
     \<lparr>success = False, data = None,
      error' = Some \<lparr>code = ''TOOL_INVOCATION_ERROR'',
                     message = ''Rate limit exceeded for git-api'',
                     retryable = False\<rparr>,
      metadata = \<lparr>duration_ms = 1, tool_id = ''git-api'', method'' = ''scan_repository''\<rparr>\<rparr>"
proof -
  let ?api = "\<lambda>(tool :: MCPToolDefinition) (m :: string) (ps :: json). (Inr (JObj []) :: jsError + json)"
  let ?reg = "snd (invokeTool ?api (gitApiRegistry 1 1) (clockAt 1000 5 ''k3x9'')
                 (scanRequest ''s1'' ''/repo''))"
  let ?rl = "\<lparr>requestCounts = [(''s1'', [1000])],
             config = \<lparr>requestsPerMinute = 1, maxConcurrentRequests = 1\<rparr>\<rparr>"
  have h1: "getTool ?reg (toolId (scanRequest ''s1'' ''/repo'')) = Some (gitApi 1 1)"
    by code_simp
  have h2: "validateAgentAccess (agentId (securityContext (scanRequest ''s1'' ''/repo'')))
      (toolId (scanRequest ''s1'' ''/repo''))"
    by code_simp
  have h3: "map_of (rateLimitTrackers ?reg) (toolId (scanRequest ''s1'' ''/repo'')) = Some ?rl"
    by code_simp
  have h4: "\<not> fst (allowRequest ?rl (sessionId (securityContext (scanRequest ''s1'' ''/repo'')))
      (rateTime (clockAt 2000 1 ''p7q2'')))"
    by code_simp
  from rate_limited_invocation_result [OF h1 h2 h3 h4, of ?api]
  show ?thesis by (simp add: scanRequest_def clockAt_def)
qed

text \<open>
  C9: when the tool is known, the caller is allowed and the rate check admits the
  invocation, the reading of the clock is appended to the pruned window of the (tool id,
  session id) pair before the external call starts, and it is still there when the
  invocation ends, whatever the call returns or throws. An invocation rejected by the
  lookup or by the policy leaves every rate tracker as it was.
\<close>

theorem rate_window_updated_before_call:
  "(getTool reg (toolId req) = Some tool \<and>
    validateAgentAccess (agentId (securityContext req)) (toolId req) \<and>
    map_of (rateLimitTrackers reg) (toolId req) = Some rl \<and>
    fst (allowRequest rl (sessionId (securityContext req)) (rateTime clk)) \<longrightarrow>
      rateWindow (registryAtCall (invokeTool_begin reg clk req)) (toolId req)
          (sessionId (securityContext req)) =
        filter (\<lambda>ts. rateTime clk - 60000 < ts)
          (rateWindow reg (toolId req) (sessionId (securityContext req))) @ [rateTime clk]
      \<and> rateWindow (snd (invokeTool api reg clk req)) (toolId req)
          (sessionId (securityContext req)) =
        filter (\<lambda>ts. rateTime clk - 60000 < ts)
          (rateWindow reg (toolId req) (sessionId (securityContext req))) @ [rateTime clk])
   \<and> (getTool reg (toolId req) = None \<or>
      \<not> validateAgentAccess (agentId (securityContext req)) (toolId req) \<longrightarrow>
        rateLimitTrackers (snd (invokeTool api reg clk req)) = rateLimitTrackers reg)"
proof (intro conjI impI)
  assume a: "getTool reg (toolId req) = Some tool \<and>
    validateAgentAccess (agentId (securityContext req)) (toolId req) \<and>
    map_of (rateLimitTrackers reg) (toolId req) = Some rl \<and>
    fst (allowRequest rl (sessionId (securityContext req)) (rateTime clk))"
  then have adm: "fst (allowRequest rl (sessionId (securityContext req)) (rateTime clk))"
    and rl: "map_of (rateLimitTrackers reg) (toolId req) = Some rl"
    by blast+
  from a have upd: "rateLimitTrackers (registryAtCall (invokeTool_begin reg clk req)) =
      AList.update (toolId req)
        (snd (allowRequest rl (sessionId (securityContext req)) (rateTime clk)))
        (rateLimitTrackers reg)"
    using begin_admitted [of reg req tool rl clk] by blast
  have w: "rateWindow reg (toolId req) (sessionId (securityContext req)) =
      window rl (sessionId (securityContext req))"
    using rl by (simp add: rateWindow_def)
  show atCall: "rateWindow (registryAtCall (invokeTool_begin reg clk req)) (toolId req)
          (sessionId (securityContext req)) =
        filter (\<lambda>ts. rateTime clk - 60000 < ts)
          (rateWindow reg (toolId req) (sessionId (securityContext req))) @ [rateTime clk]"
    using upd allowRequest_admitted(1) [OF adm] w
    by (simp add: rateWindow_def update_conv')
  show "rateWindow (snd (invokeTool api reg clk req)) (toolId req)
          (sessionId (securityContext req)) =
        filter (\<lambda>ts. rateTime clk - 60000 < ts)
          (rateWindow reg (toolId req) (sessionId (securityContext req))) @ [rateTime clk]"
    using atCall invokeTool_trackers [of api reg clk req] by (simp add: rateWindow_def)
next
  assume "getTool reg (toolId req) = None \<or>
      \<not> validateAgentAccess (agentId (securityContext req)) (toolId req)"
  from begin_rejected_early [OF this, of clk]
  show "rateLimitTrackers (snd (invokeTool api reg clk req)) = rateLimitTrackers reg"
    by (simp add: invokeTool_trackers)
qed

theorem rate_window_updated_before_call_witness:
  "\<not> success (fst (invokeTool (\<lambda>tool m ps. Inl (JsError (Some ''ECONNREFUSED'') ''connect ECONNREFUSED''))
        (gitApiRegistry 1 1) (clockAt 1000 5 ''k3x9'') (scanRequest ''s1'' ''/repo'')))
   \<and> rateWindow (snd (invokeTool (\<lambda>tool m ps. Inl (JsError (Some ''ECONNREFUSED'') ''connect ECONNREFUSED''))
        (gitApiRegistry 1 1) (clockAt 1000 5 ''k3x9'') (scanRequest ''s1'' ''/repo'')))
        ''git-api'' ''s1'' = [1000]
   \<and> \<not> fst (allowRequest
        (the (map_of (rateLimitTrackers (snd (invokeTool
            (\<lambda>tool m ps. Inl (JsError (Some ''ECONNREFUSED'') ''connect ECONNREFUSED''))
            (gitApiRegistry 1 1) (clockAt 1000 5 ''k3x9'') (scanRequest ''s1'' ''/repo''))))
          ''git-api'')) ''s1'' 2000)
   \<and> \<not> validateAgentAccess ''ui-composer-agent'' ''git-api''
   \<and> rateLimitTrackers (snd (invokeTool (\<lambda>tool m ps. Inr (JObj []))
        (gitApiRegistry 1 1) (clockAt 1000 5 ''k3x9'')
        ((scanRequest ''s1'' ''/repo'')\<lparr>securityContext :=
            \<lparr>agentId = ''ui-composer-agent'', sessionId = ''s1'', userId = None\<rparr>\<rparr>))) =
      rateLimitTrackers (gitApiRegistry 1 1)"
proof -
  let ?down = "\<lambda>(tool :: MCPToolDefinition) (m :: string) (ps :: json).
      (Inl (JsError (Some ''ECONNREFUSED'') ''connect ECONNREFUSED'') :: jsError + json)"
  let ?up = "\<lambda>(tool :: MCPToolDefinition) (m :: string) (ps :: json). (Inr (JObj []) :: jsError + json)"
  let ?req = "scanRequest ''s1'' ''/repo''"
  let ?bad = "?req\<lparr>securityContext :=
            \<lparr>agentId = ''ui-composer-agent'', sessionId = ''s1'', userId = None\<rparr>\<rparr>"
  let ?clk = "clockAt 1000 5 ''k3x9''"
  let ?rl = "newRateLimitTracker \<lparr>requestsPerMinute = 1, maxConcurrentRequests = 1\<rparr>"
  have h1: "getTool (gitApiRegistry 1 1) (toolId ?req) = Some (gitApi 1 1)" by code_simp
  have h2: "validateAgentAccess (agentId (securityContext ?req)) (toolId ?req)" by code_simp
  have h3: "map_of (rateLimitTrackers (gitApiRegistry 1 1)) (toolId ?req) = Some ?rl"
    by code_simp
  have h4: "fst (allowRequest ?rl (sessionId (securityContext ?req)) (rateTime ?clk))"
    by code_simp
  have w0: "rateWindow (gitApiRegistry 1 1) ''git-api'' ''s1'' = []"
    by code_simp
  have ids: "toolId ?req = ''git-api''" "sessionId (securityContext ?req) = ''s1''"
    "rateTime ?clk = 1000"
    by (simp_all add: scanRequest_def clockAt_def)
  from rate_window_updated_before_call [of "gitApiRegistry 1 1" ?req "gitApi 1 1" ?rl ?clk ?down]
    h1 h2 h3 h4
  have "rateWindow (snd (invokeTool ?down (gitApiRegistry 1 1) ?clk ?req)) (toolId ?req)
          (sessionId (securityContext ?req)) =
        filter (\<lambda>ts. rateTime ?clk - 60000 < ts)
          (rateWindow (gitApiRegistry 1 1) (toolId ?req) (sessionId (securityContext ?req))) @
        [rateTime ?clk]"
    by blast
  then have A: "rateWindow (snd (invokeTool ?down (gitApiRegistry 1 1) ?clk ?req)) ''git-api'' ''s1'' = [1000]"
    unfolding ids by (simp add: w0)
  have B: "\<not> success (fst (invokeTool ?down (gitApiRegistry 1 1) ?clk ?req))" by code_simp
  have C: "\<not> fst (allowRequest
        (the (map_of (rateLimitTrackers (snd (invokeTool ?down (gitApiRegistry 1 1) ?clk ?req)))
          ''git-api'')) ''s1'' 2000)"
    by code_simp
  have h5: "\<not> validateAgentAccess (agentId (securityContext ?bad)) (toolId ?bad)" by code_simp
  have h5': "\<not> validateAgentAccess ''ui-composer-agent'' ''git-api''" by code_simp
  from rate_window_updated_before_call [of "gitApiRegistry 1 1" ?bad "gitApi 1 1" ?rl ?clk ?up] h5
  have D: "rateLimitTrackers (snd (invokeTool ?up (gitApiRegistry 1 1) ?clk ?bad)) =
      rateLimitTrackers (gitApiRegistry 1 1)"
    by blast
  show ?thesis using A B C D h5' by blast
qed

section \<open>Invocations in flight: properties\<close>

lemma update_fresh: "map_of al k = None \<Longrightarrow> AList.update k v al = al @ [(k, v)]"
  by (induction al) (auto split: if_splits)

lemma startSpan_activeSpans:
  "activeSpans (snd (startSpan tr idTime rnd now cmp cmpId act parent inp tgs)) =
   AList.update (generateSpanId idTime rnd)
     \<lparr>traceId = (case parent of None \<Rightarrow> generateSpanId idTime rnd
                   | Some p \<Rightarrow> if p \<noteq> [] then p else generateSpanId idTime rnd),
      spanId = generateSpanId idTime rnd, parentSpanId = parent, timestamp = now,
      duration = None, component = cmp, componentId = cmpId, action = act,
      input = sanitizeForLogging inp, output' = None, error = None,
      tags = (case tgs of None \<Rightarrow> [] | Some t \<Rightarrow> t)\<rparr>
     (activeSpans tr)"
  by (simp add: startSpan_def startTrace_def Let_def)

lemma begin_reaches_call:
  assumes "getTool reg (toolId req) = Some tool"
    and "validateAgentAccess (agentId (securityContext req)) (toolId req)"
    and "map_of (rateLimitTrackers reg) (toolId req) = Some rl"
    and "fst (allowRequest rl (sessionId (securityContext req)) (rateTime clk))"
    and "sanitizeToolInput (params req) = Inr sp"
  shows "\<not> isl (invokeTool_begin reg clk req)"
    and "activeSpans (tracer (registryAtCall (invokeTool_begin reg clk req))) =
         activeSpans (snd (startSpan (tracer reg) (spanIdTime clk) (spanRandom clk) (spanTime clk)
                        McpTool (toolId req) (method' req)
                        (Some (sessionId (securityContext req))) (Some (params req)) None))"
proof -
  obtain ok rl' where ar: "allowRequest rl (sessionId (securityContext req)) (rateTime clk) = (ok, rl')"
    by (cases "allowRequest rl (sessionId (securityContext req)) (rateTime clk)")
  with assms(4) have ok: "ok" by simp
  show "\<not> isl (invokeTool_begin reg clk req)"
    using assms(1-3,5) ar ok
    by (simp add: invokeTool_begin_def Let_def case_prod_beta getTool_def)
  show "activeSpans (tracer (registryAtCall (invokeTool_begin reg clk req))) =
         activeSpans (snd (startSpan (tracer reg) (spanIdTime clk) (spanRandom clk) (spanTime clk)
                        McpTool (toolId req) (method' req)
                        (Some (sessionId (securityContext req))) (Some (params req)) None))"
    using assms(1-3,5) ar ok
    by (simp add: invokeTool_begin_def registryAtCall_def Let_def case_prod_beta getTool_def)
qed

text \<open>
  C8 as the code has it: \<open>maxConcurrentRequests\<close> is stored and never read. The rate
  check gives the same answer whatever its value, and an invocation that passes the
  lookup, the policy, the rate check and the sanitization reaches its external call
  however many invocations of the tool are in flight: with a fresh span id, there is one
  more in flight afterwards.
\<close>

theorem concurrency_cap_not_enforced:
  "fst (allowRequest (rl\<lparr>config := (config rl)\<lparr>maxConcurrentRequests := m\<rparr>\<rparr>) key now) =
     fst (allowRequest rl key now)
   \<and> (getTool reg (toolId req) = Some tool \<and>
      validateAgentAccess (agentId (securityContext req)) (toolId req) \<and>
      map_of (rateLimitTrackers reg) (toolId req) = Some rl' \<and>
      fst (allowRequest rl' (sessionId (securityContext req)) (rateTime clk)) \<and>
      sanitizeToolInput (params req) = Inr sp \<and>
      map_of (activeSpans (tracer reg)) (generateSpanId (spanIdTime clk) (spanRandom clk)) = None
      \<longrightarrow> \<not> isl (invokeTool_begin reg clk req) \<and>
          inFlight (registryAtCall (invokeTool_begin reg clk req)) (toolId req) =
            inFlight reg (toolId req) + 1)"
proof (intro conjI impI)
  show "fst (allowRequest (rl\<lparr>config := (config rl)\<lparr>maxConcurrentRequests := m\<rparr>\<rparr>) key now) =
     fst (allowRequest rl key now)"
    by (simp add: allowRequest_def window_def Let_def)
next
  assume a: "getTool reg (toolId req) = Some tool \<and>
      validateAgentAccess (agentId (securityContext req)) (toolId req) \<and>
      map_of (rateLimitTrackers reg) (toolId req) = Some rl' \<and>
      fst (allowRequest rl' (sessionId (securityContext req)) (rateTime clk)) \<and>
      sanitizeToolInput (params req) = Inr sp \<and>
      map_of (activeSpans (tracer reg)) (generateSpanId (spanIdTime clk) (spanRandom clk)) = None"
  then have fresh: "map_of (activeSpans (tracer reg))
      (generateSpanId (spanIdTime clk) (spanRandom clk)) = None"
    by blast
  from a have r: "\<not> isl (invokeTool_begin reg clk req)"
    and s: "activeSpans (tracer (registryAtCall (invokeTool_begin reg clk req))) =
         activeSpans (snd (startSpan (tracer reg) (spanIdTime clk) (spanRandom clk) (spanTime clk)
                        McpTool (toolId req) (method' req)
                        (Some (sessionId (securityContext req))) (Some (params req)) None))"
    using begin_reaches_call [of reg req tool rl' clk sp] by blast+
  show "\<not> isl (invokeTool_begin reg clk req)" by (rule r)
  show "inFlight (registryAtCall (invokeTool_begin reg clk req)) (toolId req) =
            inFlight reg (toolId req) + 1"
    unfolding inFlight_def s startSpan_activeSpans update_fresh [OF fresh]
    by simp
qed

theorem concurrency_cap_not_enforced_witness:
  "getTool (registryAtCall (invokeTool_begin (gitApiRegistry 10 1) (clockAt 1000 5 ''k3x9'')
        (scanRequest ''s1'' ''/repo''))) ''git-api'' = Some (gitApi 10 1)
   \<and> validateAgentAccess ''planner-agent'' ''git-api''
   \<and> inFlight (registryAtCall (invokeTool_begin (gitApiRegistry 10 1) (clockAt 1000 5 ''k3x9'')
        (scanRequest ''s1'' ''/repo''))) ''git-api'' = 1
   \<and> \<not> isl (invokeTool_begin
        (registryAtCall (invokeTool_begin (gitApiRegistry 10 1) (clockAt 1000 5 ''k3x9'')
           (scanRequest ''s1'' ''/repo'')))
        (clockAt 1001 5 ''p7q2'') (scanRequest ''s2'' ''/other''))
   \<and> inFlight (registryAtCall (invokeTool_begin
        (registryAtCall (invokeTool_begin (gitApiRegistry 10 1) (clockAt 1000 5 ''k3x9'')
           (scanRequest ''s1'' ''/repo'')))
        (clockAt 1001 5 ''p7q2'') (scanRequest ''s2'' ''/other''))) ''git-api'' = 2"
proof -
  let ?reg1 = "registryAtCall (invokeTool_begin (gitApiRegistry 10 1) (clockAt 1000 5 ''k3x9'')
        (scanRequest ''s1'' ''/repo''))"
  let ?req = "scanRequest ''s2'' ''/other''"
  let ?clk = "clockAt 1001 5 ''p7q2''"
  let ?rl = "\<lparr>requestCounts = [(''s1'', [1000])],
             config = \<lparr>requestsPerMinute = 10, maxConcurrentRequests = 1\<rparr>\<rparr>"
  have ids: "toolId ?req = ''git-api''" "agentId (securityContext ?req) = ''planner-agent''"
    by (simp_all add: scanRequest_def)
  have h1: "getTool ?reg1 (toolId ?req) = Some (gitApi 10 1)" by code_simp
  have h2: "validateAgentAccess (agentId (securityContext ?req)) (toolId ?req)" by code_simp
  have h3: "map_of (rateLimitTrackers ?reg1) (toolId ?req) = Some ?rl" by code_simp
  have h4: "fst (allowRequest ?rl (sessionId (securityContext ?req)) (rateTime ?clk))"
    by code_simp
  have h5: "sanitizeToolInput (params ?req) = Inr (JObj [(''repo_path'', JStr ''/other'')])"
    by code_simp
  have h6: "map_of (activeSpans (tracer ?reg1))
      (generateSpanId (spanIdTime ?clk) (spanRandom ?clk)) = None"
    by code_simp
  have one: "inFlight ?reg1 ''git-api'' = 1" by code_simp
  from concurrency_cap_not_enforced [where reg = ?reg1 and req = ?req and tool = "gitApi 10 1"
      and rl' = ?rl and clk = ?clk and sp = "JObj [(''repo_path'', JStr ''/other'')]"]
    h1 h2 h3 h4 h5 h6
  have "\<not> isl (invokeTool_begin ?reg1 ?clk ?req) \<and>
      inFlight (registryAtCall (invokeTool_begin ?reg1 ?clk ?req)) (toolId ?req) =
        inFlight ?reg1 (toolId ?req) + 1"
    by blast
  then have "\<not> isl (invokeTool_begin ?reg1 ?clk ?req) \<and>
      inFlight (registryAtCall (invokeTool_begin ?reg1 ?clk ?req)) ''git-api'' = 2"
    unfolding ids one by simp
  then show ?thesis using h1 h2 one unfolding ids by blast
qed

theorem two_in_flight_under_cap_of_one:
  "maxConcurrentRequests (rateLimits (gitApi 10 1)) = 1
   \<and> \<not> isl (invokeTool_begin (gitApiRegistry 10 1) (clockAt 1000 5 ''k3x9'')
        (scanRequest ''s1'' ''/repo''))
   \<and> \<not> isl (invokeTool_begin
        (registryAtCall (invokeTool_begin (gitApiRegistry 10 1) (clockAt 1000 5 ''k3x9'')
           (scanRequest ''s1'' ''/repo'')))
        (clockAt 1001 5 ''p7q2'') (scanRequest ''s2'' ''/other''))
   \<and> inFlight (registryAtCall (invokeTool_begin
        (registryAtCall (invokeTool_begin (gitApiRegistry 10 1) (clockAt 1000 5 ''k3x9'')
           (scanRequest ''s1'' ''/repo'')))
        (clockAt 1001 5 ''p7q2'') (scanRequest ''s2'' ''/other''))) ''git-api'' = 2"
  by code_simp

section \<open>The coordinator: properties\<close>

lemma callListeners_quiet:
  "list_all (\<lambda>l. \<forall>payload. l payload = None) fs \<Longrightarrow> callListeners fs payload = None"
  by (induction fs) auto

lemma emit_wellBehaved: "wellBehaved (listeners rt) \<Longrightarrow> emit rt ev payload = None"
proof -
  assume wb: "wellBehaved (listeners rt)"
  show ?thesis
  proof (cases "map_of (listeners rt) ev")
    case None
    then show ?thesis by (simp add: emit_def)
  next
    case (Some fs)
    then have "(ev, fs) \<in> set (listeners rt)" by (rule map_of_SomeD)
    with wb have "list_all (\<lambda>l. \<forall>payload. l payload = None) fs"
      by (auto simp: wellBehaved_def list_all_iff)
    then show ?thesis using Some by (simp add: emit_def callListeners_quiet)
  qed
qed

lemma alikeE:
  assumes "alike rt rt'"
  obtains ls where "rt' = rt\<lparr>listeners := ls\<rparr>" "wellBehaved ls" "wellBehaved (listeners rt)"
  using assms unfolding alike_def by (metis OrchestratorRuntime.select_convs(5)
      OrchestratorRuntime.surjective OrchestratorRuntime.update_convs(5))

lemma blindI:
  assumes "\<And>rt ls. wellBehaved (listeners rt) \<Longrightarrow> wellBehaved ls \<Longrightarrow>
      fst (act rt) = fst (act (rt\<lparr>listeners := ls\<rparr>)) \<and>
      snd (act (rt\<lparr>listeners := ls\<rparr>)) = (snd (act rt))\<lparr>listeners := ls\<rparr> \<and>
      listeners (snd (act rt)) = listeners rt"
  shows "blind act"
  unfolding blind_def
proof (intro allI impI)
  fix rt rt'
  assume "alike rt rt'"
  then obtain ls where rt': "rt' = rt\<lparr>listeners := ls\<rparr>" and ls: "wellBehaved ls"
    and wb: "wellBehaved (listeners rt)"
    by (rule alikeE)
  from assms [OF wb ls]
  show "fst (act rt) = fst (act rt') \<and> alike (snd (act rt)) (snd (act rt'))"
    using rt' ls wb by (simp add: alike_def)
qed





lemma blind_agentFailed: "blind (agentFailed aid sid e)"
  by (rule blindI) (simp add: agentFailed_def emit_wellBehaved)















lemma sample_run:
  "runSummary (startAudit sampleEnv sampleRequest sampleRuntime) 0 ''s1'' =
     (Inr ''s1'', Some (Completed, None),
      [(McpTool, ''span-2001-tool'', Some ''s1''),
       (Agent, ''span-2000-planner-agent'', Some ''s1''),
       (Agent, ''span-2000-security-agent'', Some ''s1''),
       (Agent, ''span-2000-quality-agent'', Some ''s1''),
       (Agent, ''span-2000-compliance-agent'', Some ''s1''),
       (Agent, ''span-2000-validator-agent'', Some ''s1''),
       (Agent, ''span-2000-prioritizer-agent'', Some ''s1''),
       (Agent, ''span-2000-explainer-agent'', Some ''s1''),
       (Agent, ''span-2000-ui-composer-agent'', Some ''s1'')])"
  by code_simp


text \<open>
  C1, on the code: the trace of a whole session as it is recorded, the planner's tool
  call and the eight agent steps. Every span names the session id as its parent; no span has that id,
  none is a root, and the tool span is not under the span of the planner that made the
  call.
\<close>

theorem session_trace_has_no_root_span:
  "spanLinks (sessionTrace (snd (startAudit sampleEnv sampleRequest sampleRuntime)) ''s1'') =
     [(McpTool, ''span-2001-tool'', Some ''s1''),
      (Agent, ''span-2000-planner-agent'', Some ''s1''),
      (Agent, ''span-2000-security-agent'', Some ''s1''),
      (Agent, ''span-2000-quality-agent'', Some ''s1''),
      (Agent, ''span-2000-compliance-agent'', Some ''s1''),
      (Agent, ''span-2000-validator-agent'', Some ''s1''),
      (Agent, ''span-2000-prioritizer-agent'', Some ''s1''),
      (Agent, ''span-2000-explainer-agent'', Some ''s1''),
      (Agent, ''span-2000-ui-composer-agent'', Some ''s1'')]"
  using sample_run by (simp add: runSummary_def)












end
